theory Spec2Isabelle
  imports Complex_Main
begin

section \<open>The news poller of \<^verbatim>\<open>src/main.py\<close>\<close>

text \<open>
  The program polls a feed, drops titles it has already seen (\<^verbatim>\<open>BoundedDedup\<close>), labels
  each new title by three rules in order (city alias, alarm keyword, remote classifier) and
  publishes two lists. This theory embeds those parts of \<^verbatim>\<open>src/main.py\<close> as functions and
  proves the properties stated about them.

  Conventions of the embedding.
  \<^item> A Python \<^verbatim>\<open>str\<close> is a \<open>string\<close>, read as the UTF-8 bytes of the text. Substring
    tests on the bytes agree with those on the characters, since no UTF-8 encoding of a
    character occurs inside or across the encodings of others. \<^verbatim>\<open>str.strip\<close> is modelled
    in full, over the whitespace characters of Unicode that Python recognises.
  \<^item> \<^verbatim>\<open>str.lower\<close>, \<^verbatim>\<open>float\<close> on a string and \<^verbatim>\<open>float\<close> on an integer depend on tables and
    rounding of the Python runtime; they are parameters, collected in the record
    \<open>runtime\<close>, and every statement below holds for every such runtime.
  \<^item> A Python \<^verbatim>\<open>float\<close> is the real number it denotes, or an infinity, or NaN. The code
    only compares floats and stores the constants 0.0, 0.75 and 1.0, which are exact.
  \<^item> A raised exception is a value \<open>Inl e\<close> of a result type \<open>error + 'a\<close>.
  \<^item> What the worker reads from outside (the feed, the replies of the remote classifier,
    the clock, the value of \<^verbatim>\<open>USER_CITY\<close> that the HTTP handler may overwrite at any time
    with any JSON value, the order in which Python iterates a set) and what announcing an
    important item does (the sound and the console panel, which can raise) is a parameter
    of the functions below, collected in the record \<open>world\<close>.
\<close>

subsection \<open>Exceptions and Python values\<close>

datatype error = ValueError | KeyError | TypeError | IndexError | OverflowError
  | AttributeError | RequestException | MarkupError

datatype pyfloat = Num real | PosInf | NegInf | NaN

text \<open>\<^verbatim>\<open>a >= b\<close> on floats: every comparison with NaN is false.\<close>

fun float_ge :: "pyfloat \<Rightarrow> pyfloat \<Rightarrow> bool" where
  "float_ge NaN b = False"
| "float_ge a NaN = False"
| "float_ge PosInf b = True"
| "float_ge a NegInf = True"
| "float_ge (Num x) (Num y) = (y \<le> x)"
| "float_ge a b = False"

text \<open>The objects that \<^verbatim>\<open>resp.json()\<close> can return: a decoded JSON document.\<close>

datatype pyobj = PyNone | PyBool bool | PyInt int | PyFloat pyfloat | PyStr string
  | PyList "pyobj list" | PyDict "(string \<times> pyobj) list"

text \<open>Truth value of an object, as \<^verbatim>\<open>label or "general"\<close> tests it.\<close>

fun truthy :: "pyobj \<Rightarrow> bool" where
  "truthy PyNone = False"
| "truthy (PyBool b) = b"
| "truthy (PyInt i) = (i \<noteq> 0)"
| "truthy (PyFloat f) = (f \<noteq> Num 0)"
| "truthy (PyStr s) = (s \<noteq> [])"
| "truthy (PyList xs) = (xs \<noteq> [])"
| "truthy (PyDict kvs) = (kvs \<noteq> [])"

subsection \<open>Strings\<close>

fun starts_with :: "string \<Rightarrow> string \<Rightarrow> bool" where
  "starts_with [] t = True"
| "starts_with (a # as) [] = False"
| "starts_with (a # as) (c # t) = (a = c \<and> starts_with as t)"

text \<open>\<^verbatim>\<open>a in t\<close> on strings: \<open>a\<close> occurs in \<open>t\<close> as a substring.\<close>

fun str_in :: "string \<Rightarrow> string \<Rightarrow> bool" where
  "str_in a [] = (a = [])"
| "str_in a (c # t) = (starts_with a (c # t) \<or> str_in a t)"

text \<open>
  The characters for which \<^verbatim>\<open>str.isspace\<close> holds, each in its UTF-8 encoding: U+0009 to
  U+000D, U+001C to U+0020, U+0085, U+00A0, U+1680, U+2000 to U+200A, U+2028, U+2029,
  U+202F, U+205F and U+3000.
\<close>

definition whitespace :: "string list" where
  "whitespace =
     [[CHR 0x09], [CHR 0x0A], [CHR 0x0B], [CHR 0x0C], [CHR 0x0D],
      [CHR 0x1C], [CHR 0x1D], [CHR 0x1E], [CHR 0x1F], [CHR 0x20],
      [CHR 0xC2, CHR 0x85], [CHR 0xC2, CHR 0xA0], [CHR 0xE1, CHR 0x9A, CHR 0x80],
      [CHR 0xE2, CHR 0x80, CHR 0x80], [CHR 0xE2, CHR 0x80, CHR 0x81],
      [CHR 0xE2, CHR 0x80, CHR 0x82], [CHR 0xE2, CHR 0x80, CHR 0x83],
      [CHR 0xE2, CHR 0x80, CHR 0x84], [CHR 0xE2, CHR 0x80, CHR 0x85],
      [CHR 0xE2, CHR 0x80, CHR 0x86], [CHR 0xE2, CHR 0x80, CHR 0x87],
      [CHR 0xE2, CHR 0x80, CHR 0x88], [CHR 0xE2, CHR 0x80, CHR 0x89],
      [CHR 0xE2, CHR 0x80, CHR 0x8A], [CHR 0xE2, CHR 0x80, CHR 0xA8],
      [CHR 0xE2, CHR 0x80, CHR 0xA9], [CHR 0xE2, CHR 0x80, CHR 0xAF],
      [CHR 0xE2, CHR 0x81, CHR 0x9F], [CHR 0xE3, CHR 0x80, CHR 0x80]]"

text \<open>The length of the first of the encodings \<open>wss\<close> that \<open>s\<close> starts with, 0 if none.\<close>

definition ws_width :: "string list \<Rightarrow> string \<Rightarrow> nat" where
  "ws_width wss s =
     (case find (\<lambda>ws. starts_with ws s) wss of None \<Rightarrow> 0 | Some ws \<Rightarrow> length ws)"

function drop_ws :: "string list \<Rightarrow> string \<Rightarrow> string" where
  "drop_ws wss s =
     (if 0 < ws_width wss s \<and> ws_width wss s \<le> length s
      then drop_ws wss (drop (ws_width wss s) s)
      else s)"
  by pat_completeness auto
termination
  by (relation "measure (\<lambda>(wss, s). length s)") auto

declare drop_ws.simps [simp del]

text \<open>
  \<^verbatim>\<open>str.strip()\<close>: whitespace characters are removed from the left end, then from the right
  end (on the reversed bytes, against the reversed encodings).
\<close>

definition strip :: "string \<Rightarrow> string" where
  "strip s = rev (drop_ws (map rev whitespace) (rev (drop_ws whitespace s)))"

text \<open>The first character of a string: one to four bytes in UTF-8.\<close>

definition utf8_width :: "char \<Rightarrow> nat" where
  "utf8_width c =
     (let n = (of_char c :: nat)
      in if n < 0x80 then 1 else if n < 0xE0 then 2 else if n < 0xF0 then 3 else 4)"

definition first_char :: "string \<Rightarrow> string" where
  "first_char s = take (utf8_width (hd s)) s"

text \<open>
  The functions of the Python runtime that are taken as given: \<^verbatim>\<open>str.lower\<close> on a text,
  \<^verbatim>\<open>float\<close> on a string (\<open>None\<close> where it raises ValueError) and \<^verbatim>\<open>float\<close> on an integer
  (the nearest double; \<open>None\<close> where it raises OverflowError).
\<close>

record runtime =
  str_lower :: "string \<Rightarrow> string"
  float_of_str :: "string \<Rightarrow> pyfloat option"
  float_of_int :: "int \<Rightarrow> pyfloat option"

subsection \<open>Configuration (lines 44 to 73)\<close>

text \<open>
  The settings read from the environment at start-up that the modelled code uses.
  \<open>USER_CITY\<close> is not among them: the handler of \<^verbatim>\<open>POST /city\<close> overwrites it while the
  worker runs, so it is read from the \<open>world\<close>.
\<close>

record config =
  HF_ENABLE :: bool
  HF_API_KEY :: string
  HF_SCORE_THRESHOLD :: pyfloat
  HF_MAX_PER_CYCLE :: int
  SEEN_CAPACITY :: int

definition CITY_SYNONYMS :: "(string \<times> string list) list" where
  "CITY_SYNONYMS =
     [(''delhi'',
        [''delhi'', ''new delhi'', ''ndl'', ''ncr'',
         [CHR 0xE0, CHR 0xA4, CHR 0xA6, CHR 0xE0, CHR 0xA4, CHR 0xBF, CHR 0xE0, CHR 0xA4,
          CHR 0xB2, CHR 0xE0, CHR 0xA5, CHR 0x8D, CHR 0xE0, CHR 0xA4, CHR 0xB2, CHR 0xE0,
          CHR 0xA5, CHR 0x80],
         [CHR 0xE0, CHR 0xA4, CHR 0xA8, CHR 0xE0, CHR 0xA4, CHR 0x88, CHR 0x20, CHR 0xE0,
          CHR 0xA4, CHR 0xA6, CHR 0xE0, CHR 0xA4, CHR 0xBF, CHR 0xE0, CHR 0xA4, CHR 0xB2,
          CHR 0xE0, CHR 0xA5, CHR 0x8D, CHR 0xE0, CHR 0xA4, CHR 0xB2, CHR 0xE0, CHR 0xA5,
          CHR 0x80],
         ''dilli'']),
      (''mumbai'',
        [''mumbai'', ''bombay'',
         [CHR 0xE0, CHR 0xA4, CHR 0xAE, CHR 0xE0, CHR 0xA5, CHR 0x81, CHR 0xE0, CHR 0xA4,
          CHR 0x82, CHR 0xE0, CHR 0xA4, CHR 0xAC, CHR 0xE0, CHR 0xA4, CHR 0x88]]),
      (''bengaluru'',
        [''bengaluru'', ''bangalore'',
         [CHR 0xE0, CHR 0xA4, CHR 0xAC, CHR 0xE0, CHR 0xA5, CHR 0x87, CHR 0xE0, CHR 0xA4,
          CHR 0x82, CHR 0xE0, CHR 0xA4, CHR 0x97, CHR 0xE0, CHR 0xA4, CHR 0xB2, CHR 0xE0,
          CHR 0xA5, CHR 0x81, CHR 0xE0, CHR 0xA4, CHR 0xB0, CHR 0xE0, CHR 0xA5, CHR 0x81]])]"

definition IMPORTANT_KEYWORDS :: "string list" where
  "IMPORTANT_KEYWORDS =
     [''earthquake'', ''war'', ''atomic'', ''nuclear'', ''blast'', ''explosion'',
      ''terrorist'', ''attack'', ''murder'', ''kill'', ''homicide'', ''riot'', ''violence'',
      ''fire'', ''flood'', ''storm'', ''hurricane'', ''tornado'', ''landslide'', ''accident'',
      ''robbery'', ''theft'', ''cyber attack'', ''bomb'', ''hostage'', ''shooting'',
      ''curfew'', ''evacuation'', ''collapse'', ''outbreak'', ''disease'', ''pandemic'']"

subsection \<open>Sequencing of calls that can raise\<close>

definition and_then :: "error + 'a \<Rightarrow> ('a \<Rightarrow> error + 'b) \<Rightarrow> error + 'b" where
  "and_then r f = (case r of Inl e \<Rightarrow> Inl e | Inr x \<Rightarrow> f x)"

text \<open>\<^verbatim>\<open>try: ... except Exception: ...\<close>\<close>

definition try_except :: "error + 'a \<Rightarrow> (error \<Rightarrow> error + 'a) \<Rightarrow> error + 'a" where
  "try_except r handler = (case r of Inl e \<Rightarrow> handler e | Inr x \<Rightarrow> Inr x)"

subsection \<open>Utilities (lines 80 to 93)\<close>

text \<open>
  \<^verbatim>\<open>(s or "").strip().lower()\<close>. The argument is a title from the feed, a string, or the
  value of \<^verbatim>\<open>USER_CITY\<close>, any JSON value: one that is false becomes the empty string, a
  string is trimmed and lower-cased, and any other has no \<^verbatim>\<open>strip\<close>, which raises
  AttributeError.
\<close>

definition normalize_text :: "runtime \<Rightarrow> pyobj \<Rightarrow> error + string" where
  "normalize_text rt s =
     (if truthy s
      then (case s of PyStr x \<Rightarrow> Inr (str_lower rt (strip x)) | other \<Rightarrow> Inl AttributeError)
      else Inr (str_lower rt (strip [])))"

definition city_aliases :: "runtime \<Rightarrow> pyobj \<Rightarrow> error + string list" where
  "city_aliases rt city =
     and_then (normalize_text rt city) (\<lambda>c.
       Inr (case map_of CITY_SYNONYMS c of None \<Rightarrow> [c] | Some aliases \<Rightarrow> aliases))"

definition title_matches_city :: "runtime \<Rightarrow> string \<Rightarrow> pyobj \<Rightarrow> error + bool" where
  "title_matches_city rt title city =
     and_then (normalize_text rt (PyStr title)) (\<lambda>t.
     and_then (city_aliases rt city) (\<lambda>aliases.
       Inr (list_ex (\<lambda>alias. str_in alias t) aliases)))"

definition keyword_prefilter :: "runtime \<Rightarrow> string \<Rightarrow> string list \<Rightarrow> error + bool" where
  "keyword_prefilter rt title keywords =
     and_then (normalize_text rt (PyStr title)) (\<lambda>t.
       Inr (list_ex (\<lambda>k. str_in k t) keywords))"

subsection \<open>The remote classification client (lines 106 to 118)\<close>

text \<open>
  What \<^verbatim>\<open>requests.post(...)\<close> followed by \<^verbatim>\<open>resp.json()\<close> does for one request: the post
  raises (network error, timeout), the body is not JSON and decoding raises, or a document
  is decoded.
\<close>

datatype reply = PostRaises | JsonRaises | Decoded pyobj

text \<open>\<^verbatim>\<open>k in data\<close> for a string \<open>k\<close>.\<close>

fun py_in :: "string \<Rightarrow> pyobj \<Rightarrow> error + bool" where
  "py_in k (PyDict kvs) = Inr (k \<in> set (map fst kvs))"
| "py_in k (PyList xs) = Inr (PyStr k \<in> set xs)"
| "py_in k (PyStr s) = Inr (str_in k s)"
| "py_in k x = Inl TypeError"

text \<open>\<^verbatim>\<open>data[k]\<close> for a string \<open>k\<close>: only a dict can be indexed by a string.\<close>

fun getitem_key :: "pyobj \<Rightarrow> string \<Rightarrow> error + pyobj" where
  "getitem_key (PyDict kvs) k = (case map_of kvs k of None \<Rightarrow> Inl KeyError | Some v \<Rightarrow> Inr v)"
| "getitem_key x k = Inl TypeError"

text \<open>
  \<^verbatim>\<open>x[0]\<close>: the first element of a list, the first character of a string; a decoded dict
  has string keys only, so \<^verbatim>\<open>0\<close> is never among them.
\<close>

fun getitem_0 :: "pyobj \<Rightarrow> error + pyobj" where
  "getitem_0 (PyList xs) = (case xs of [] \<Rightarrow> Inl IndexError | x # rest \<Rightarrow> Inr x)"
| "getitem_0 (PyStr s) = (if s = [] then Inl IndexError else Inr (PyStr (first_char s)))"
| "getitem_0 (PyDict kvs) = Inl KeyError"
| "getitem_0 x = Inl TypeError"

text \<open>
  \<^verbatim>\<open>float(x)\<close>: a float is itself, \<^verbatim>\<open>True\<close> and \<^verbatim>\<open>False\<close> are 1.0 and 0.0, an integer and a
  string are converted by the runtime, and every other object raises TypeError.
\<close>

fun py_float :: "runtime \<Rightarrow> pyobj \<Rightarrow> error + pyfloat" where
  "py_float rt (PyFloat f) = Inr f"
| "py_float rt (PyInt i) =
     (case float_of_int rt i of None \<Rightarrow> Inl OverflowError | Some f \<Rightarrow> Inr f)"
| "py_float rt (PyBool b) = Inr (Num (if b then 1 else 0))"
| "py_float rt (PyStr s) =
     (case float_of_str rt s of None \<Rightarrow> Inl ValueError | Some f \<Rightarrow> Inr f)"
| "py_float rt x = Inl TypeError"

text \<open>The body of the \<^verbatim>\<open>try\<close> block of \<^verbatim>\<open>hf_classify\<close> (lines 110 to 116).\<close>

definition hf_request :: "runtime \<Rightarrow> reply \<Rightarrow> error + pyobj \<times> pyfloat" where
  "hf_request rt r =
     (case r of
        PostRaises \<Rightarrow> Inl RequestException
      | JsonRaises \<Rightarrow> Inl ValueError
      | Decoded data \<Rightarrow>
          and_then (py_in ''labels'' data) (\<lambda>has_labels.
          and_then (if has_labels then py_in ''scores'' data else Inr False) (\<lambda>has_both.
            if has_both then
              and_then (getitem_key data ''labels'') (\<lambda>labels.
              and_then (getitem_0 labels) (\<lambda>label.
              and_then (getitem_key data ''scores'') (\<lambda>scores.
              and_then (getitem_0 scores) (\<lambda>s.
              and_then (py_float rt s) (\<lambda>score. Inr (label, score))))))
            else Inr (PyNone, Num 0))))"

text \<open>
  \<^verbatim>\<open>hf_classify(text)\<close>; \<open>r\<close> is what the request for this text does. The payload carries
  \<open>text\<close> and the keyword list; they reach the result only through \<open>r\<close>. The result type
  allows a raise; that none happens is proved below.
\<close>

definition hf_classify :: "config \<Rightarrow> runtime \<Rightarrow> reply \<Rightarrow> string \<Rightarrow> error + pyobj \<times> pyfloat" where
  "hf_classify cfg rt r text =
     (if \<not> HF_ENABLE cfg \<or> HF_API_KEY cfg = [] then Inr (PyNone, Num 0)
      else try_except (hf_request rt r) (\<lambda>e. Inr (PyNone, Num 0)))"

subsection \<open>Fetching the feed (lines 120 to 127)\<close>

text \<open>
  An entry of the parsed feed; \<open>None\<close> is an attribute the entry does not have, whose
  access raises AttributeError inside the \<^verbatim>\<open>try\<close> block. The handler reports the exception
  on the console and returns the empty list; the report is taken to return.
\<close>

record entry =
  entry_title :: "string option"
  entry_link :: "string option"

datatype feed = ParseRaises | Parsed "entry list"

type_synonym news_dict = "(string \<times> string) list"

definition entry_dict :: "entry \<Rightarrow> error + news_dict" where
  "entry_dict e =
     (case entry_title e of
        None \<Rightarrow> Inl AttributeError
      | Some t \<Rightarrow>
          (case entry_link e of
             None \<Rightarrow> Inl AttributeError
           | Some l \<Rightarrow> Inr [(''title'', t), (''link'', l)]))"

fun entry_dicts :: "entry list \<Rightarrow> error + news_dict list" where
  "entry_dicts [] = Inr []"
| "entry_dicts (e # es) =
     and_then (entry_dict e) (\<lambda>d. and_then (entry_dicts es) (\<lambda>ds. Inr (d # ds)))"

definition fetch_rss :: "feed \<Rightarrow> news_dict list" where
  "fetch_rss f =
     (case f of
        ParseRaises \<Rightarrow> []
      | Parsed entries \<Rightarrow> (case entry_dicts entries of Inl e \<Rightarrow> [] | Inr items \<Rightarrow> items))"

definition dict_get :: "news_dict \<Rightarrow> string \<Rightarrow> string \<Rightarrow> string" where
  "dict_get d k dflt = (case map_of d k of None \<Rightarrow> dflt | Some v \<Rightarrow> v)"

subsection \<open>\<^verbatim>\<open>BoundedDedup\<close> (lines 129 to 147)\<close>

text \<open>
  \<open>queue\<close> is the deque, oldest key first. \<open>dset\<close> holds the members of the Python set
  \<^verbatim>\<open>self.set\<close>, each once. Python does not fix the order in which a set is iterated, so
  \<^verbatim>\<open>list(self.set)\<close> is \<open>iter (dset d)\<close> for a parameter \<open>iter\<close>.
\<close>

record BoundedDedup =
  capacity :: int
  queue :: "string list"
  dset :: "string list"

text \<open>
  \<^verbatim>\<open>deque(maxlen=capacity)\<close> raises ValueError for a negative \<^verbatim>\<open>maxlen\<close> and OverflowError
  for one that does not fit the C type \<^verbatim>\<open>Py_ssize_t\<close>, 64 bits wide on the usual platforms.
\<close>

definition PY_SSIZE_T_MAX :: int where
  "PY_SSIZE_T_MAX = 2 ^ 63 - 1"

definition BoundedDedup_init :: "int \<Rightarrow> error + BoundedDedup" where
  "BoundedDedup_init c =
     (if c < 0 then Inl ValueError
      else if PY_SSIZE_T_MAX < c then Inl OverflowError
      else Inr \<lparr>capacity = c, queue = [], dset = []\<rparr>)"

text \<open>\<^verbatim>\<open>deque.append\<close>: the key goes to the right end; a deque over \<^verbatim>\<open>maxlen\<close> loses its left end.\<close>

definition deque_append :: "int \<Rightarrow> string list \<Rightarrow> string \<Rightarrow> string list" where
  "deque_append maxlen q k =
     (let q' = q @ [k] in if maxlen < int (length q') then tl q' else q')"

definition set_add :: "string list \<Rightarrow> string \<Rightarrow> string list" where
  "set_add S k = (if k \<in> set S then S else S @ [k])"

definition set_remove :: "string list \<Rightarrow> string \<Rightarrow> error + string list" where
  "set_remove S s = (if s \<in> set S then Inr (remove1 s S) else Inl KeyError)"

text \<open>
  The \<^verbatim>\<open>while\<close> loop of \<^verbatim>\<open>seen\<close> (lines 140 to 146): while the set is larger than the queue,
  remove the first member, in iteration order, that is not in the queue; stop when there
  is none.
\<close>

function prune :: "(string list \<Rightarrow> string list) \<Rightarrow> string list \<Rightarrow> string list
    \<Rightarrow> error + string list" where
  "prune iter q S =
     (if length q < length S then
        (case find (\<lambda>s. s \<notin> set q) (iter S) of
           None \<Rightarrow> Inr S
         | Some s \<Rightarrow>
             (case set_remove S s of
                Inl e \<Rightarrow> Inl e
              | Inr S' \<Rightarrow> prune iter q S'))
      else Inr S)"
  by pat_completeness auto
termination
  by (relation "measure (\<lambda>(iter, q, S). length S)")
     (auto simp: set_remove_def length_remove1 split: if_splits)

declare prune.simps [simp del]

definition seen :: "(string list \<Rightarrow> string list) \<Rightarrow> BoundedDedup \<Rightarrow> string
    \<Rightarrow> error + bool \<times> BoundedDedup" where
  "seen iter d key =
     (let k = strip key in
      if k \<in> set (dset d) then Inr (True, d)
      else
        let q = deque_append (capacity d) (queue d) k;
            S = set_add (dset d) k
        in case prune iter q S of
             Inl e \<Rightarrow> Inl e
           | Inr S' \<Rightarrow> Inr (False, d\<lparr>queue := q, dset := S'\<rparr>))"

text \<open>A sequence of calls on one object, with the result of each call.\<close>

fun seen_calls :: "(string list \<Rightarrow> string list) \<Rightarrow> BoundedDedup \<Rightarrow> string list
    \<Rightarrow> error + bool list \<times> BoundedDedup" where
  "seen_calls iter d [] = Inr ([], d)"
| "seen_calls iter d (key # keys) =
     (case seen iter d key of
        Inl e \<Rightarrow> Inl e
      | Inr (b, d') \<Rightarrow>
          (case seen_calls iter d' keys of
             Inl e \<Rightarrow> Inl e
           | Inr (bs, d'') \<Rightarrow> Inr (b # bs, d'')))"

text \<open>\<^verbatim>\<open>BoundedDedup(c)\<close> followed by a sequence of calls.\<close>

definition dedup_session :: "(string list \<Rightarrow> string list) \<Rightarrow> int \<Rightarrow> string list
    \<Rightarrow> error + bool list \<times> BoundedDedup" where
  "dedup_session iter c keys =
     (case BoundedDedup_init c of
        Inl e \<Rightarrow> Inl e
      | Inr d \<Rightarrow> seen_calls iter d keys)"

subsection \<open>One cycle of \<^verbatim>\<open>update_news\<close> (lines 195 to 246)\<close>

record news_item =
  title :: string
  link :: string
  category :: pyobj
  score :: pyfloat
  time :: string
  is_important :: bool

text \<open>
  The variables of one cycle. \<open>hf_calls\<close> and \<open>alerts\<close> are not variables of the source:
  they record, in order, the texts \<^verbatim>\<open>hf_classify\<close> was called with and the titles announced
  by \<^verbatim>\<open>sound_notify\<close> and the console panel.
\<close>

record cycle_vars =
  dedup :: BoundedDedup
  cycle_news :: "news_item list"
  cycle_important :: "news_item list"
  hf_budget :: int
  hf_calls :: "string list"
  alerts :: "string list"

text \<open>
  Lines 216 to 223: the label and score of a title, by the first rule that applies.
  \<open>r\<close> is what the remote request for this title does, should it be sent.
\<close>

definition label_title :: "config \<Rightarrow> runtime \<Rightarrow> reply \<Rightarrow> bool \<Rightarrow> bool \<Rightarrow> cycle_vars \<Rightarrow> string
    \<Rightarrow> error + (pyobj \<times> pyfloat) \<times> cycle_vars" where
  "label_title cfg rt r is_city is_keyword v t =
     (if is_city then Inr ((PyStr ''city-priority'', Num 1), v)
      else if is_keyword then Inr ((PyStr ''keyword'', Num 0.75), v)
      else if HF_ENABLE cfg \<and> HF_API_KEY cfg \<noteq> [] \<and> 0 < hf_budget v then
        and_then (hf_classify cfg rt r t) (\<lambda>labelled.
          Inr (labelled, v\<lparr>hf_calls := hf_calls v @ [t], hf_budget := hf_budget v - 1\<rparr>))
      else Inr ((PyNone, Num 0), v))"

text \<open>Lines 224 to 231: the dict built for the title; \<open>now\<close> is what \<^verbatim>\<open>now_str()\<close> returns.\<close>

definition make_news_item :: "config \<Rightarrow> string \<Rightarrow> string \<Rightarrow> string \<Rightarrow> pyobj \<Rightarrow> pyfloat \<Rightarrow> bool
    \<Rightarrow> news_item" where
  "make_news_item cfg now t l label sc is_keyword =
     \<lparr>title = t,
      link = l,
      category = (if truthy label then label else PyStr ''general''),
      score = sc,
      time = now,
      is_important =
        (label = PyStr ''city-priority'' \<or> float_ge sc (HF_SCORE_THRESHOLD cfg)
         \<or> (is_keyword \<and> float_ge sc (Num 0)))\<rparr>"

text \<open>
  Lines 214 to 241: what the loop does with a title that is neither empty nor seen before.
  \<open>city\<close> is the value of \<^verbatim>\<open>USER_CITY\<close> at that moment. \<open>notify t l label sc\<close> is what
  \<^verbatim>\<open>sound_notify()\<close> followed by \<^verbatim>\<open>console.print(Panel.fit(...))\<close> does for this title, link,
  label and score: \<open>None\<close> when both return, \<open>Some e\<close> when one raises, as the console does
  with MarkupError for a text that holds a closing tag without its opening tag.
\<close>

definition classify :: "config \<Rightarrow> runtime \<Rightarrow> reply \<Rightarrow> pyobj \<Rightarrow> string
    \<Rightarrow> (string \<Rightarrow> string \<Rightarrow> pyobj \<Rightarrow> pyfloat \<Rightarrow> error option)
    \<Rightarrow> cycle_vars \<Rightarrow> string \<Rightarrow> string \<Rightarrow> error + cycle_vars" where
  "classify cfg rt r city now notify v t l =
     and_then (title_matches_city rt t city) (\<lambda>is_city.
     and_then (keyword_prefilter rt t IMPORTANT_KEYWORDS) (\<lambda>is_keyword.
     and_then (label_title cfg rt r is_city is_keyword v t) (\<lambda>(labelled, v1).
       let item = make_news_item cfg now t l (fst labelled) (snd labelled) is_keyword;
           v2 = v1\<lparr>cycle_news := cycle_news v1 @ [item]\<rparr>
       in if is_important item
          then (case notify t l (fst labelled) (snd labelled) of
                  Some e \<Rightarrow> Inl e
                | None \<Rightarrow>
                    Inr (v2\<lparr>cycle_important := cycle_important v2 @ [item],
                            alerts := alerts v2 @ [t]\<rparr>))
          else Inr v2)))"

text \<open>
  What the worker meets outside itself. The functions are indexed by the number of the
  cycle and, within it, by the position of the item in the fetched list.
\<close>

record world =
  python :: runtime
  set_order :: "string list \<Rightarrow> string list"
  feed_at :: "nat \<Rightarrow> feed"
  city_at :: "nat \<Rightarrow> nat \<Rightarrow> pyobj"
  now_at :: "nat \<Rightarrow> nat \<Rightarrow> string"
  post_at :: "nat \<Rightarrow> nat \<Rightarrow> string \<Rightarrow> reply"
  notify_at :: "nat \<Rightarrow> nat \<Rightarrow> string \<Rightarrow> string \<Rightarrow> pyobj \<Rightarrow> pyfloat \<Rightarrow> error option"

text \<open>The body of the \<^verbatim>\<open>for\<close> loop (lines 210 to 241) for item \<open>i\<close> of cycle \<open>n\<close>.\<close>

definition loop_body :: "config \<Rightarrow> world \<Rightarrow> nat \<Rightarrow> nat \<Rightarrow> cycle_vars \<Rightarrow> news_dict
    \<Rightarrow> error + cycle_vars" where
  "loop_body cfg w n i v news =
     (let t = dict_get news ''title'' [];
          l = dict_get news ''link'' []
      in if t = [] then Inr v
         else case seen (set_order w) (dedup v) t of
                Inl e \<Rightarrow> Inl e
              | Inr (True, d) \<Rightarrow> Inr (v\<lparr>dedup := d\<rparr>)
              | Inr (False, d) \<Rightarrow>
                  classify cfg (python w) (post_at w n i t) (city_at w n i) (now_at w n i)
                    (notify_at w n i) (v\<lparr>dedup := d\<rparr>) t l)"

fun for_items :: "config \<Rightarrow> world \<Rightarrow> nat \<Rightarrow> nat \<Rightarrow> cycle_vars \<Rightarrow> news_dict list
    \<Rightarrow> error + cycle_vars" where
  "for_items cfg w n i v [] = Inr v"
| "for_items cfg w n i v (news # rest) =
     (case loop_body cfg w n i v news of
        Inl e \<Rightarrow> Inl e
      | Inr v' \<Rightarrow> for_items cfg w n (Suc i) v' rest)"

text \<open>
  The state that outlives a cycle: the deduplicator, the two published lists (the globals
  \<^verbatim>\<open>latest_news\<close> and \<^verbatim>\<open>important_news\<close> that \<^verbatim>\<open>/news\<close> and \<^verbatim>\<open>/important\<close> serve) and the
  cycle counter.
\<close>

record app =
  app_dedup :: BoundedDedup
  latest_news :: "news_item list"
  important_news :: "news_item list"
  cycle :: nat

text \<open>One turn of the \<^verbatim>\<open>while\<close> loop (lines 201 to 246); sleeping changes no variable.\<close>

definition cycle_body :: "config \<Rightarrow> world \<Rightarrow> app \<Rightarrow> error + app" where
  "cycle_body cfg w a =
     (let n = cycle a + 1;
          items = fetch_rss (feed_at w n)
      in if items = [] then Inr (a\<lparr>cycle := n\<rparr>)
         else case for_items cfg w n 0
                     \<lparr>dedup = app_dedup a, cycle_news = [], cycle_important = [],
                      hf_budget = HF_MAX_PER_CYCLE cfg, hf_calls = [], alerts = []\<rparr> items of
                Inl e \<Rightarrow> Inl e
              | Inr v \<Rightarrow>
                  Inr (a\<lparr>app_dedup := dedup v, latest_news := cycle_news v,
                         important_news := cycle_important v, cycle := n\<rparr>))"

text \<open>The first \<open>k\<close> turns of the \<^verbatim>\<open>while running\<close> loop.\<close>

fun cycles :: "config \<Rightarrow> world \<Rightarrow> nat \<Rightarrow> app \<Rightarrow> error + app" where
  "cycles cfg w 0 a = Inr a"
| "cycles cfg w (Suc k) a =
     (case cycle_body cfg w a of
        Inl e \<Rightarrow> Inl e
      | Inr a' \<Rightarrow> cycles cfg w k a')"

text \<open>\<^verbatim>\<open>update_news\<close> up to the end of its \<open>k\<close>-th cycle.\<close>

definition update_news :: "config \<Rightarrow> world \<Rightarrow> nat \<Rightarrow> error + app" where
  "update_news cfg w k =
     (case BoundedDedup_init (SEEN_CAPACITY cfg) of
        Inl e \<Rightarrow> Inl e
      | Inr d \<Rightarrow>
          cycles cfg w k \<lparr>app_dedup = d, latest_news = [], important_news = [], cycle = 0\<rparr>)"

subsection \<open>Notions used in the statements\<close>

text \<open>\<open>iter\<close> lists exactly the members of a set, in some order.\<close>

definition enumerates :: "(string list \<Rightarrow> string list) \<Rightarrow> bool" where
  "enumerates iter = (\<forall>S. set (iter S) = set S)"

text \<open>
  The invariant of the data model: the membership set and the queue hold the same keys,
  each once, and no more than \<open>capacity\<close> of them.
\<close>

definition dedup_inv :: "BoundedDedup \<Rightarrow> bool" where
  "dedup_inv d =
     (set (dset d) = set (queue d) \<and> distinct (dset d) \<and> distinct (queue d)
      \<and> int (length (queue d)) \<le> capacity d)"

text \<open>
  Recording a new key as the specification words it: the key becomes the newest entry,
  and when that exceeds the capacity the oldest entry is evicted, from the queue and from
  the membership set.
\<close>

definition record_key :: "BoundedDedup \<Rightarrow> string \<Rightarrow> BoundedDedup" where
  "record_key d k =
     (if int (length (queue d)) < capacity d
      then d\<lparr>queue := queue d @ [k], dset := dset d @ [k]\<rparr>
      else d\<lparr>queue := tl (queue d @ [k]),
             dset := remove1 (hd (queue d @ [k])) (dset d @ [k])\<rparr>)"

text \<open>The key of the latest call, trimmed; \<open>q\<close> when there was no call.\<close>

definition latest :: "string list \<Rightarrow> string list \<Rightarrow> string list" where
  "latest q keys = (if keys = [] then q else [strip (last keys)])"

text \<open>
  A reply with well-formed label and score lists, in the words of the specification: a
  document with a non-empty list of strings under \<^verbatim>\<open>labels\<close> and a non-empty list of numbers
  under \<^verbatim>\<open>scores\<close>.
\<close>

fun is_label :: "pyobj \<Rightarrow> bool" where
  "is_label (PyStr s) = True"
| "is_label x = False"

fun is_number :: "pyobj \<Rightarrow> bool" where
  "is_number (PyInt i) = True"
| "is_number (PyFloat f) = True"
| "is_number x = False"

fun nonempty_list_of :: "(pyobj \<Rightarrow> bool) \<Rightarrow> pyobj option \<Rightarrow> bool" where
  "nonempty_list_of P (Some (PyList xs)) = (xs \<noteq> [] \<and> list_all P xs)"
| "nonempty_list_of P x = False"

fun well_formed_lists :: "reply \<Rightarrow> bool" where
  "well_formed_lists (Decoded (PyDict kvs)) =
     (nonempty_list_of is_label (map_of kvs ''labels'')
      \<and> nonempty_list_of is_number (map_of kvs ''scores''))"
| "well_formed_lists r = False"

text \<open>
  How the remote budget may move between two states of a cycle: the calls made in between
  are appended to the log, each costs one unit, none is made at a budget of zero or
  below, and a budget that is not negative stays so.
\<close>

definition budget_step :: "cycle_vars \<Rightarrow> cycle_vars \<Rightarrow> bool" where
  "budget_step v v' =
     (\<exists>sent. hf_calls v' = hf_calls v @ sent
        \<and> hf_budget v' = hf_budget v - int (length sent)
        \<and> (hf_budget v \<le> 0 \<longrightarrow> sent = [])
        \<and> (0 \<le> hf_budget v \<longrightarrow> 0 \<le> hf_budget v'))"

text \<open>
  The first element that \<^verbatim>\<open>x[0]\<close> yields, \<open>None\<close> where it raises: used to say what the
  remote client returns for each shape of reply.
\<close>

fun first_of :: "pyobj \<Rightarrow> pyobj option" where
  "first_of (PyList (x # rest)) = Some x"
| "first_of (PyStr (c # s)) = Some (PyStr (first_char (c # s)))"
| "first_of x = None"

text \<open>The members \<^verbatim>\<open>labels\<close> and \<^verbatim>\<open>scores\<close> of a decoded reply, where it is a dict with both.\<close>

fun members :: "reply \<Rightarrow> (pyobj \<times> pyobj) option" where
  "members (Decoded (PyDict kvs)) =
     (case map_of kvs ''labels'' of
        None \<Rightarrow> None
      | Some ls \<Rightarrow> (case map_of kvs ''scores'' of None \<Rightarrow> None | Some ss \<Rightarrow> Some (ls, ss)))"
| "members r = None"

text \<open>
  A value of \<^verbatim>\<open>USER_CITY\<close> on which \<^verbatim>\<open>normalize_text\<close> does not raise: a string, or a value
  that is false. A world in which the worker meets nothing that raises: sets are
  iterated member by member, the city is always such a value, and every announcement
  returns.
\<close>

fun city_ok :: "pyobj \<Rightarrow> bool" where
  "city_ok (PyStr s) = True"
| "city_ok x = (\<not> truthy x)"

definition quiet :: "world \<Rightarrow> bool" where
  "quiet w =
     (enumerates (set_order w)
      \<and> (\<forall>n i. city_ok (city_at w n i))
      \<and> (\<forall>n i t l label sc. notify_at w n i t l label sc = None))"

subsection \<open>Example surroundings\<close>

text \<open>
  Concrete inputs on which the functions are evaluated below. The example runtime
  lower-cases the letters A to Z, as Python does on ASCII text, converts integers up to
  \<open>2 ^ 53\<close>, which a double holds exactly, and is given no string to convert. The example
  world brings two entries at its first fetch and fails to fetch afterwards; its remote
  requests all time out, its city is "Delhi" and its announcements return. The example
  console, used apart from it, raises MarkupError on a title that holds the text \<^verbatim>\<open>[/\<close>.
\<close>

definition lower_char :: "char \<Rightarrow> char" where
  "lower_char c =
     (case map_of (zip ''ABCDEFGHIJKLMNOPQRSTUVWXYZ'' ''abcdefghijklmnopqrstuvwxyz'') c of
        None \<Rightarrow> c
      | Some l \<Rightarrow> l)"

definition ascii_lower :: "string \<Rightarrow> string" where
  "ascii_lower s = map lower_char s"

definition no_strings :: "string \<Rightarrow> pyfloat option" where
  "no_strings s = None"

definition small_int :: "int \<Rightarrow> pyfloat option" where
  "small_int i = (if \<bar>i\<bar> \<le> 2 ^ 53 then Some (Num (of_int i)) else None)"

definition example_runtime :: runtime where
  "example_runtime =
     \<lparr>str_lower = ascii_lower, float_of_str = no_strings, float_of_int = small_int\<rparr>"

definition example_config :: config where
  "example_config =
     \<lparr>HF_ENABLE = True, HF_API_KEY = ''key'', HF_SCORE_THRESHOLD = Num 0.5,
      HF_MAX_PER_CYCLE = 20, SEEN_CAPACITY = 1000\<rparr>"

definition example_vars :: cycle_vars where
  "example_vars =
     \<lparr>dedup = \<lparr>capacity = 1000, queue = [], dset = []\<rparr>,
      cycle_news = [], cycle_important = [], hf_budget = 20, hf_calls = [], alerts = []\<rparr>"

definition example_feed :: "nat \<Rightarrow> feed" where
  "example_feed n =
     (if n = 1
      then Parsed [\<lparr>entry_title = Some ''Flood in Mumbai'', entry_link = Some ''u1''\<rparr>,
                   \<lparr>entry_title = Some ''Cricket score'', entry_link = Some ''u2''\<rparr>]
      else ParseRaises)"

definition example_city :: "nat \<Rightarrow> nat \<Rightarrow> pyobj" where
  "example_city n i = PyStr ''Delhi''"

definition example_clock :: "nat \<Rightarrow> nat \<Rightarrow> string" where
  "example_clock n i = ''2024-01-01 00:00:00''"

definition example_post :: "nat \<Rightarrow> nat \<Rightarrow> string \<Rightarrow> reply" where
  "example_post n i t = PostRaises"

definition example_notify :: "string \<Rightarrow> string \<Rightarrow> pyobj \<Rightarrow> pyfloat \<Rightarrow> error option" where
  "example_notify t l label sc = (if str_in ''[/'' t then Some MarkupError else None)"

definition silent_at :: "nat \<Rightarrow> nat \<Rightarrow> string \<Rightarrow> string \<Rightarrow> pyobj \<Rightarrow> pyfloat \<Rightarrow> error option" where
  "silent_at n i t l label sc = None"

definition example_world :: world where
  "example_world =
     \<lparr>python = example_runtime, set_order = rev, feed_at = example_feed,
      city_at = example_city, now_at = example_clock, post_at = example_post,
      notify_at = silent_at\<rparr>"

section \<open>The deduplicator\<close>

lemma find_only:
  "h \<in> set xs \<Longrightarrow> P h \<Longrightarrow> (\<forall>x\<in>set xs. P x \<longrightarrow> x = h) \<Longrightarrow> find P xs = Some h"
proof (induction xs)
  case Nil
  then show ?case by simp
next
  case (Cons a xs)
  show ?case
  proof (cases "P a")
    case True
    then have "a = h" using Cons.prems(3) by simp
    then show ?thesis using True by simp
  next
    case False
    then have "h \<in> set xs" using Cons.prems(1,2) by auto
    moreover have "\<forall>x\<in>set xs. P x \<longrightarrow> x = h" using Cons.prems(3) by simp
    ultimately have "find P xs = Some h" using Cons.IH Cons.prems(2) by blast
    then show ?thesis using False by simp
  qed
qed

lemma prune_balanced: "length S \<le> length q \<Longrightarrow> prune iter q S = Inr S"
  by (subst prune.simps) simp

text \<open>
  When exactly one member of the set is missing from the queue, the loop removes that
  member and stops, whatever the iteration order.
\<close>

lemma prune_one:
  assumes it: "enumerates iter"
    and h: "h \<in> set S" "h \<notin> set q"
    and rest: "\<forall>x\<in>set S. x \<notin> set q \<longrightarrow> x = h"
    and len: "length S = Suc (length q)"
  shows "prune iter q S = Inr (remove1 h S)"
proof -
  have mem: "set (iter S) = set S" using it by (simp add: enumerates_def)
  have "find (\<lambda>s. s \<notin> set q) (iter S) = Some h"
  proof (rule find_only)
    show "h \<in> set (iter S)" using h(1) mem by simp
    show "h \<notin> set q" by (rule h(2))
    show "\<forall>x\<in>set (iter S). x \<notin> set q \<longrightarrow> x = h" using rest mem by simp
  qed
  moreover have "prune iter q (remove1 h S) = Inr (remove1 h S)"
    using h len by (intro prune_balanced) (simp add: length_remove1)
  ultimately show ?thesis
    using h len by (subst prune.simps) (simp add: set_remove_def)
qed

text \<open>
  On a state that satisfies the invariant, \<open>seen\<close> does what the specification says:
  it answers by membership and records a new key with \<open>record_key\<close>.
\<close>

lemma seen_step:
  assumes it: "enumerates iter" and inv: "dedup_inv d"
  shows "seen iter d key =
           (if strip key \<in> set (queue d) then Inr (True, d)
            else Inr (False, record_key d (strip key)))"
proof (cases "strip key \<in> set (queue d)")
  case True
  then show ?thesis using inv by (simp add: seen_def dedup_inv_def)
next
  case False
  let ?k = "strip key"
  have notin: "?k \<notin> set (dset d)" using False inv by (simp add: dedup_inv_def)
  have len: "length (dset d) = length (queue d)"
    using inv by (metis dedup_inv_def distinct_card)
  show ?thesis
  proof (cases "int (length (queue d)) < capacity d")
    case True
    have "prune iter (queue d @ [?k]) (dset d @ [?k]) = Inr (dset d @ [?k])"
      using len by (intro prune_balanced) simp
    then show ?thesis
      using True False notin
      by (simp add: seen_def deque_append_def set_add_def record_key_def Let_def)
  next
    case full: False
    let ?q = "queue d @ [?k]"
    let ?S = "dset d @ [?k]"
    have dq: "distinct ?q" using inv False by (simp add: dedup_inv_def)
    have hq: "?q = hd ?q # tl ?q" by simp
    have "prune iter (tl ?q) ?S = Inr (remove1 (hd ?q) ?S)"
    proof (rule prune_one [OF it])
      show "hd ?q \<in> set ?S" using inv by (cases "queue d") (auto simp: dedup_inv_def)
      show "hd ?q \<notin> set (tl ?q)" using dq hq by (metis distinct.simps(2))
      show "\<forall>x\<in>set ?S. x \<notin> set (tl ?q) \<longrightarrow> x = hd ?q"
        using inv hq by (metis dedup_inv_def set_ConsD set_append)
      show "length ?S = Suc (length (tl ?q))" using len by simp
    qed
    then show ?thesis
      using full False notin
      by (simp add: seen_def deque_append_def set_add_def record_key_def Let_def)
  qed
qed

lemma record_key_inv:
  assumes inv: "dedup_inv d" and new: "k \<notin> set (queue d)"
  shows "dedup_inv (record_key d k)"
proof (cases "int (length (queue d)) < capacity d")
  case True
  then show ?thesis using inv new by (auto simp: record_key_def dedup_inv_def)
next
  case False
  let ?q = "queue d @ [k]"
  have dq: "distinct ?q" and ds: "distinct (dset d @ [k])"
    and same: "set (dset d @ [k]) = set ?q"
    using inv new by (auto simp: dedup_inv_def)
  have hq: "?q = hd ?q # tl ?q" by simp
  have "set (remove1 (hd ?q) (dset d @ [k])) = set ?q - {hd ?q}"
    using ds same by (metis set_remove1_eq)
  also have "\<dots> = set (tl ?q)"
    using dq hq by (metis Diff_insert_absorb distinct.simps(2) list.simps(15))
  finally have a: "set (remove1 (hd ?q) (dset d @ [k])) = set (tl ?q)" .
  have b: "distinct (remove1 (hd ?q) (dset d @ [k]))" using ds by (rule distinct_remove1)
  have c: "distinct (tl ?q)" using dq by (rule distinct_tl)
  have e: "int (length (tl ?q)) \<le> capacity d" using inv by (simp add: dedup_inv_def)
  show ?thesis using False a b c e by (simp add: record_key_def dedup_inv_def)
qed

lemma record_key_capacity: "capacity (record_key d k) = capacity d"
  by (simp add: record_key_def)

lemma seen_calls_inv:
  assumes it: "enumerates iter"
  shows "dedup_inv d \<Longrightarrow>
    \<exists>bs d'. seen_calls iter d keys = Inr (bs, d') \<and> dedup_inv d'
      \<and> capacity d' = capacity d \<and> length bs = length keys"
proof (induction keys arbitrary: d)
  case Nil
  then show ?case by simp
next
  case (Cons key keys)
  let ?d1 = "if strip key \<in> set (queue d) then d else record_key d (strip key)"
  have s: "seen iter d key = Inr (strip key \<in> set (queue d), ?d1)"
    using it Cons.prems by (simp add: seen_step)
  have inv1: "dedup_inv ?d1"
    using Cons.prems record_key_inv [of d "strip key"] by simp
  have cap1: "capacity ?d1 = capacity d" by (simp add: record_key_capacity)
  from Cons.IH [OF inv1] obtain bs d' where
    r: "seen_calls iter ?d1 keys = Inr (bs, d')" "dedup_inv d'"
       "capacity d' = capacity ?d1" "length bs = length keys"
    by blast
  show ?case using s r cap1 by simp
qed

lemma init_inv: "0 \<le> c \<Longrightarrow> dedup_inv \<lparr>capacity = c, queue = [], dset = []\<rparr>"
  by (simp add: dedup_inv_def)

lemma enumerates_rev: "enumerates rev"
  by (simp add: enumerates_def)

lemma strip_abc: "strip ''a'' = ''a''" "strip ''b'' = ''b''" "strip ''c'' = ''c''"
  by (simp_all add: strip_def drop_ws.simps ws_width_def whitespace_def)

lemma dedup_session_inv:
  assumes it: "enumerates iter" and c: "0 \<le> c" and top: "c \<le> PY_SSIZE_T_MAX"
  shows "\<exists>bs d. dedup_session iter c keys = Inr (bs, d)
      \<and> length bs = length keys
      \<and> set (dset d) = set (queue d) \<and> distinct (dset d) \<and> distinct (queue d)
      \<and> int (length (dset d)) \<le> c \<and> int (length (queue d)) \<le> c
      \<and> (\<forall>key. strip key \<in> set (queue d) \<longrightarrow> seen iter d key = Inr (True, d))
      \<and> (\<forall>key. strip key \<notin> set (queue d) \<longrightarrow>
            (\<exists>d'. seen iter d key = Inr (False, d')
               \<and> queue d' = (if int (length (queue d)) < c then queue d @ [strip key]
                             else tl (queue d @ [strip key]))
               \<and> set (dset d') = set (queue d')))"
proof -
  from seen_calls_inv [OF it init_inv [OF c], of keys] obtain bs d where
    r: "seen_calls iter \<lparr>capacity = c, queue = [], dset = []\<rparr> keys = Inr (bs, d)"
       "dedup_inv d" "capacity d = c" "length bs = length keys"
    by auto
  have run: "dedup_session iter c keys = Inr (bs, d)"
    using c top r(1) by (simp add: dedup_session_def BoundedDedup_init_def)
  have len: "length (dset d) = length (queue d)"
    using r(2) by (metis dedup_inv_def distinct_card)
  have hit: "\<forall>key. strip key \<in> set (queue d) \<longrightarrow> seen iter d key = Inr (True, d)"
    using it r(2) by (simp add: seen_step)
  have miss: "\<forall>key. strip key \<notin> set (queue d) \<longrightarrow>
            (\<exists>d'. seen iter d key = Inr (False, d')
               \<and> queue d' = (if int (length (queue d)) < c then queue d @ [strip key]
                             else tl (queue d @ [strip key]))
               \<and> set (dset d') = set (queue d'))"
  proof (intro allI impI)
    fix key assume new: "strip key \<notin> set (queue d)"
    have "dedup_inv (record_key d (strip key))"
      using r(2) new by (rule record_key_inv)
    then have "set (dset (record_key d (strip key))) = set (queue (record_key d (strip key)))"
      by (simp add: dedup_inv_def)
    moreover have "queue (record_key d (strip key)) =
        (if int (length (queue d)) < c then queue d @ [strip key]
         else tl (queue d @ [strip key]))"
      using r(3) by (simp add: record_key_def)
    moreover have "seen iter d key = Inr (False, record_key d (strip key))"
      using it r(2) new by (simp add: seen_step)
    ultimately show "\<exists>d'. seen iter d key = Inr (False, d')
               \<and> queue d' = (if int (length (queue d)) < c then queue d @ [strip key]
                             else tl (queue d @ [strip key]))
               \<and> set (dset d') = set (queue d')"
      by blast
  qed
  show ?thesis
    using run r(2,3,4) len hit miss unfolding dedup_inv_def by (intro exI conjI) simp_all
qed

text \<open>
  C1. For every sequence of \<open>seen\<close> calls on a deduplicator of capacity \<open>c\<close>, whatever the
  order in which Python iterates the set: a deduplicator of capacity \<open>c\<close> can be built and
  the calls return for every \<open>c\<close> from 0 up to the largest \<^verbatim>\<open>Py_ssize_t\<close> (beyond it the
  constructor raises, and there is no deduplicator); and whenever the calls return, \<open>c\<close> is
  not negative and afterwards the membership set and the queue hold the same keys, each
  once, and at most \<open>c\<close> of them. A further call with a key that is held returns true
  and changes nothing; a further call with a new key returns false and appends the key
  to the queue, and when that makes the queue longer than \<open>c\<close> the oldest key (the head of
  the queue) is the one dropped, from the queue and from the set alike.
\<close>

theorem dedup_invariant:
  assumes it: "enumerates iter"
  shows "(0 \<le> c \<and> c \<le> PY_SSIZE_T_MAX \<longrightarrow> (\<exists>bs d. dedup_session iter c keys = Inr (bs, d)))
     \<and> (\<forall>bs d. dedup_session iter c keys = Inr (bs, d) \<longrightarrow>
          0 \<le> c \<and> length bs = length keys
          \<and> set (dset d) = set (queue d) \<and> distinct (dset d) \<and> distinct (queue d)
          \<and> int (length (dset d)) \<le> c \<and> int (length (queue d)) \<le> c
          \<and> (\<forall>key. strip key \<in> set (queue d) \<longrightarrow> seen iter d key = Inr (True, d))
          \<and> (\<forall>key. strip key \<notin> set (queue d) \<longrightarrow>
                (\<exists>d'. seen iter d key = Inr (False, d')
                   \<and> queue d' = (if int (length (queue d)) < c then queue d @ [strip key]
                                 else tl (queue d @ [strip key]))
                   \<and> set (dset d') = set (queue d'))))"
proof (intro conjI impI allI)
  assume "0 \<le> c \<and> c \<le> PY_SSIZE_T_MAX"
  then have c: "0 \<le> c" and top: "c \<le> PY_SSIZE_T_MAX" by simp_all
  from dedup_session_inv [OF it c top, of keys]
  show "\<exists>bs d. dedup_session iter c keys = Inr (bs, d)" by blast
next
  fix bs d
  assume r: "dedup_session iter c keys = Inr (bs, d)"
  have c: "0 \<le> c" and top: "c \<le> PY_SSIZE_T_MAX"
    using r by (simp_all add: dedup_session_def BoundedDedup_init_def split: if_splits)
  from dedup_session_inv [OF it c top, of keys] obtain bs' d' where
    r': "dedup_session iter c keys = Inr (bs', d')"
    and p: "length bs' = length keys"
      "set (dset d') = set (queue d')" "distinct (dset d')" "distinct (queue d')"
      "int (length (dset d')) \<le> c" "int (length (queue d')) \<le> c"
      "\<forall>key. strip key \<in> set (queue d') \<longrightarrow> seen iter d' key = Inr (True, d')"
      "\<forall>key. strip key \<notin> set (queue d') \<longrightarrow>
                (\<exists>d''. seen iter d' key = Inr (False, d'')
                   \<and> queue d'' = (if int (length (queue d')) < c then queue d' @ [strip key]
                                 else tl (queue d' @ [strip key]))
                   \<and> set (dset d'') = set (queue d''))"
    by blast
  have same: "bs' = bs" "d' = d" using r r' by simp_all
  show "0 \<le> c" by (rule c)
  show "length bs = length keys" using p(1) same by simp
  show "set (dset d) = set (queue d)" using p(2) same by simp
  show "distinct (dset d)" using p(3) same by simp
  show "distinct (queue d)" using p(4) same by simp
  show "int (length (dset d)) \<le> c" using p(5) same by simp
  show "int (length (queue d)) \<le> c" using p(6) same by simp
  show "\<And>key. strip key \<in> set (queue d) \<Longrightarrow> seen iter d key = Inr (True, d)"
    using p(7) same by simp
  show "\<And>key. strip key \<notin> set (queue d) \<Longrightarrow>
                \<exists>d'. seen iter d key = Inr (False, d')
                   \<and> queue d' = (if int (length (queue d)) < c then queue d @ [strip key]
                                 else tl (queue d @ [strip key]))
                   \<and> set (dset d') = set (queue d')"
    using p(8) unfolding same by blast
qed

theorem dedup_invariant_witness:
  "enumerates rev \<and> (0::int) \<le> 2 \<and> 2 \<le> PY_SSIZE_T_MAX
   \<and> dedup_session rev 2 [''a'', ''b'', ''c''] =
       Inr ([False, False, False],
            \<lparr>capacity = 2, queue = [''b'', ''c''], dset = [''b'', ''c'']\<rparr>)
   \<and> seen rev \<lparr>capacity = 2, queue = [''b'', ''c''], dset = [''b'', ''c'']\<rparr> ''b'' =
       Inr (True, \<lparr>capacity = 2, queue = [''b'', ''c''], dset = [''b'', ''c'']\<rparr>)
   \<and> (\<exists>d'. seen rev \<lparr>capacity = 2, queue = [''b'', ''c''], dset = [''b'', ''c'']\<rparr> ''a'' =
             Inr (False, d')
          \<and> queue d' = [''c'', ''a''] \<and> set (dset d') = set (queue d'))
   \<and> dedup_session rev (2 ^ 63) [''a''] = Inl OverflowError"
proof -
  let ?D = "\<lparr>capacity = 2, queue = [''b'', ''c''], dset = [''b'', ''c'']\<rparr>"
  have run: "dedup_session rev 2 [''a'', ''b'', ''c''] = Inr ([False, False, False], ?D)"
    using enumerates_rev
    by (simp add: dedup_session_def BoundedDedup_init_def PY_SSIZE_T_MAX_def seen_step
        dedup_inv_def record_key_def strip_abc)
  note inv = dedup_invariant [OF enumerates_rev, of 2 "[''a'', ''b'', ''c'']"]
  from inv run have
    hit: "\<forall>key. strip key \<in> set (queue ?D) \<longrightarrow> seen rev ?D key = Inr (True, ?D)"
    and miss: "\<forall>key. strip key \<notin> set (queue ?D) \<longrightarrow>
            (\<exists>d'. seen rev ?D key = Inr (False, d')
               \<and> queue d' = (if int (length (queue ?D)) < 2 then queue ?D @ [strip key]
                             else tl (queue ?D @ [strip key]))
               \<and> set (dset d') = set (queue d'))"
    by blast+
  have "seen rev ?D ''b'' = Inr (True, ?D)"
    using spec [OF hit, of "''b''"] by (simp add: strip_abc)
  moreover
  have "\<exists>d'. seen rev ?D ''a'' = Inr (False, d')
          \<and> queue d' = [''c'', ''a''] \<and> set (dset d') = set (queue d')"
    using spec [OF miss, of "''a''"] by (simp add: strip_abc)
  moreover
  have "dedup_session rev (2 ^ 63) [''a''] = Inl OverflowError"
    by (simp add: dedup_session_def BoundedDedup_init_def PY_SSIZE_T_MAX_def)
  moreover have "(2::int) \<le> PY_SSIZE_T_MAX" by (simp add: PY_SSIZE_T_MAX_def)
  ultimately show ?thesis using run enumerates_rev by simp
qed

text \<open>
  C2. On a fresh deduplicator of capacity 2 the calls \<open>seen("a")\<close>, \<open>seen("b")\<close>, \<open>seen("c")\<close>,
  \<open>seen("a")\<close> return false, false, false, false (the first "a" was evicted when "c" came);
  with capacity 3 they return false, false, false, true.
\<close>

theorem dedup_capacity_2_and_3:
  assumes it: "enumerates iter"
  shows "dedup_session iter 2 [''a'', ''b'', ''c'', ''a''] =
           Inr ([False, False, False, False],
                \<lparr>capacity = 2, queue = [''c'', ''a''], dset = [''c'', ''a'']\<rparr>)
       \<and> dedup_session iter 3 [''a'', ''b'', ''c'', ''a''] =
           Inr ([False, False, False, True],
                \<lparr>capacity = 3, queue = [''a'', ''b'', ''c''], dset = [''a'', ''b'', ''c'']\<rparr>)"
  using it
  by (simp add: dedup_session_def BoundedDedup_init_def PY_SSIZE_T_MAX_def seen_step
      dedup_inv_def record_key_def strip_abc)

theorem dedup_capacity_2_and_3_witness:
  "enumerates rev
   \<and> dedup_session rev 2 [''a'', ''b'', ''c'', ''a''] =
           Inr ([False, False, False, False],
                \<lparr>capacity = 2, queue = [''c'', ''a''], dset = [''c'', ''a'']\<rparr>)
   \<and> dedup_session rev 3 [''a'', ''b'', ''c'', ''a''] =
           Inr ([False, False, False, True],
                \<lparr>capacity = 3, queue = [''a'', ''b'', ''c''], dset = [''a'', ''b'', ''c'']\<rparr>)"
  using dedup_capacity_2_and_3 [of rev] enumerates_rev by simp

lemma capacity_0_calls:
  assumes it: "enumerates iter"
  shows "seen_calls iter \<lparr>capacity = 0, queue = [], dset = []\<rparr> keys =
           Inr (replicate (length keys) False, \<lparr>capacity = 0, queue = [], dset = []\<rparr>)"
  using it
  by (induction keys) (simp_all add: seen_step dedup_inv_def record_key_def)

lemma capacity_1_calls:
  assumes it: "enumerates iter"
  shows "length q \<le> 1 \<Longrightarrow>
    \<exists>bs. seen_calls iter \<lparr>capacity = 1, queue = q, dset = q\<rparr> keys =
           Inr (bs, \<lparr>capacity = 1, queue = latest q keys, dset = latest q keys\<rparr>)"
proof (induction keys arbitrary: q)
  case Nil
  then show ?case by (simp add: latest_def)
next
  case (Cons key keys)
  let ?d = "\<lparr>capacity = 1, queue = q, dset = q\<rparr>"
  let ?d1 = "\<lparr>capacity = 1, queue = [strip key], dset = [strip key]\<rparr>"
  have inv: "dedup_inv ?d" using Cons.prems by (cases q) (auto simp: dedup_inv_def)
  have "seen iter ?d key =
          (if strip key \<in> set (queue ?d) then Inr (True, ?d)
           else Inr (False, record_key ?d (strip key)))"
    by (rule seen_step [OF it inv])
  then have "seen iter ?d key = Inr (strip key \<in> set q, ?d1)"
    using Cons.prems by (cases q) (auto simp: record_key_def)
  moreover from Cons.IH [of "[strip key]"] obtain bs where
    "seen_calls iter ?d1 keys =
       Inr (bs, \<lparr>capacity = 1, queue = latest [strip key] keys,
                 dset = latest [strip key] keys\<rparr>)"
    by auto
  moreover have "latest [strip key] keys = latest q (key # keys)"
    by (simp add: latest_def)
  ultimately show ?case by simp
qed

text \<open>
  C8. A deduplicator of capacity 0 or 1 never raises, whatever the calls and the iteration
  order of the set. With capacity 0 every call returns false and nothing is ever held.
  With capacity 1, after any calls the only key held is the key of the latest call,
  trimmed (none before the first call), and the next call returns true exactly for that
  key.
\<close>

theorem dedup_degenerate_capacities:
  assumes it: "enumerates iter"
  shows "dedup_session iter 0 keys =
           Inr (replicate (length keys) False, \<lparr>capacity = 0, queue = [], dset = []\<rparr>)
       \<and> (\<exists>bs. dedup_session iter 1 keys =
              Inr (bs, \<lparr>capacity = 1, queue = latest [] keys, dset = latest [] keys\<rparr>))
       \<and> (\<forall>key. \<exists>d'. seen iter \<lparr>capacity = 1, queue = latest [] keys, dset = latest [] keys\<rparr> key
              = Inr (strip key \<in> set (latest [] keys), d'))"
proof -
  have inv: "dedup_inv \<lparr>capacity = 1, queue = latest [] keys, dset = latest [] keys\<rparr>"
    by (simp add: dedup_inv_def latest_def)
  show ?thesis
    using capacity_0_calls [OF it, of keys] capacity_1_calls [OF it, of "[]" keys]
    by (simp add: dedup_session_def BoundedDedup_init_def PY_SSIZE_T_MAX_def
        seen_step [OF it inv])
qed

theorem dedup_degenerate_capacities_witness:
  "enumerates rev
   \<and> dedup_session rev 0 [''a'', ''a''] =
           Inr ([False, False], \<lparr>capacity = 0, queue = [], dset = []\<rparr>)
   \<and> (\<exists>bs. dedup_session rev 1 [''a'', ''b''] =
              Inr (bs, \<lparr>capacity = 1, queue = [''b''], dset = [''b'']\<rparr>))
   \<and> (\<exists>d'. seen rev \<lparr>capacity = 1, queue = [''b''], dset = [''b'']\<rparr> ''a'' = Inr (False, d'))
   \<and> (\<exists>d'. seen rev \<lparr>capacity = 1, queue = [''b''], dset = [''b'']\<rparr> ''b'' = Inr (True, d'))"
proof -
  note zero = dedup_degenerate_capacities [OF enumerates_rev, of "[''a'', ''a'']"]
  note one = dedup_degenerate_capacities [OF enumerates_rev, of "[''a'', ''b'']"]
  have next_call: "\<forall>key. \<exists>d'. seen rev \<lparr>capacity = 1, queue = [''b''], dset = [''b'']\<rparr> key
      = Inr (strip key \<in> set [''b''], d')"
    using one by (simp add: latest_def strip_abc)
  have "\<exists>d'. seen rev \<lparr>capacity = 1, queue = [''b''], dset = [''b'']\<rparr> ''a'' = Inr (False, d')"
    using spec [OF next_call, of "''a''"] by (simp add: strip_abc)
  moreover
  have "\<exists>d'. seen rev \<lparr>capacity = 1, queue = [''b''], dset = [''b'']\<rparr> ''b'' = Inr (True, d')"
    using spec [OF next_call, of "''b''"] by (simp add: strip_abc)
  moreover
  have "dedup_session rev 0 [''a'', ''a''] =
           Inr ([False, False], \<lparr>capacity = 0, queue = [], dset = []\<rparr>)"
    using zero by simp
  moreover
  have "\<exists>bs. dedup_session rev 1 [''a'', ''b''] =
              Inr (bs, \<lparr>capacity = 1, queue = [''b''], dset = [''b'']\<rparr>)"
    using one by (simp add: latest_def strip_abc)
  ultimately show ?thesis using enumerates_rev by blast
qed

section \<open>Labelling a title\<close>

lemma normalize_text_str: "normalize_text rt (PyStr s) = Inr (str_lower rt (strip s))"
  by (simp add: normalize_text_def)

lemma keyword_prefilter_eq:
  "keyword_prefilter rt t keywords =
     Inr (list_ex (\<lambda>k. str_in k (str_lower rt (strip t))) keywords)"
  by (simp add: keyword_prefilter_def normalize_text_str and_then_def)

lemma title_matches_cityI:
  assumes "city_aliases rt city = Inr aliases" "alias \<in> set aliases"
    and "normalize_text rt (PyStr t) = Inr nt" "str_in alias nt"
  shows "title_matches_city rt t city = Inr True"
  using assms by (auto simp: title_matches_city_def and_then_def list_ex_iff)

lemma keyword_prefilterI:
  assumes "k \<in> set keywords" "normalize_text rt (PyStr t) = Inr nt" "str_in k nt"
  shows "keyword_prefilter rt t keywords = Inr True"
  using assms by (auto simp: keyword_prefilter_def and_then_def list_ex_iff)

lemma classify_city:
  assumes "title_matches_city rt t city = Inr True"
  shows "classify cfg rt r city now notify v t l =
     (case notify t l (PyStr ''city-priority'') (Num 1) of
        Some e \<Rightarrow> Inl e
      | None \<Rightarrow>
          Inr (v\<lparr>cycle_news := cycle_news v @
                  [\<lparr>title = t, link = l, category = PyStr ''city-priority'', score = Num 1,
                    time = now, is_important = True\<rparr>],
                cycle_important := cycle_important v @
                  [\<lparr>title = t, link = l, category = PyStr ''city-priority'', score = Num 1,
                    time = now, is_important = True\<rparr>],
                alerts := alerts v @ [t]\<rparr>))"
  using assms
  by (cases "notify t l (PyStr ''city-priority'') (Num 1)")
     (simp_all add: classify_def keyword_prefilter_eq and_then_def label_title_def
        make_news_item_def Let_def)

lemma classify_keyword:
  assumes "title_matches_city rt t city = Inr False"
    and "keyword_prefilter rt t IMPORTANT_KEYWORDS = Inr True"
  shows "classify cfg rt r city now notify v t l =
     (case notify t l (PyStr ''keyword'') (Num 0.75) of
        Some e \<Rightarrow> Inl e
      | None \<Rightarrow>
          Inr (v\<lparr>cycle_news := cycle_news v @
                  [\<lparr>title = t, link = l, category = PyStr ''keyword'', score = Num 0.75,
                    time = now, is_important = True\<rparr>],
                cycle_important := cycle_important v @
                  [\<lparr>title = t, link = l, category = PyStr ''keyword'', score = Num 0.75,
                    time = now, is_important = True\<rparr>],
                alerts := alerts v @ [t]\<rparr>))"
  using assms
  by (cases "notify t l (PyStr ''keyword'') (Num 0.75)")
     (simp_all add: classify_def and_then_def label_title_def make_news_item_def Let_def)

text \<open>The example runtime on the titles used below.\<close>

lemma example_normalize:
  "normalize_text example_runtime (PyStr ''Delhi'') = Inr ''delhi''"
  "normalize_text example_runtime (PyStr ''Blast in Delhi'') = Inr ''blast in delhi''"
  "normalize_text example_runtime (PyStr ''Flood warning'') = Inr ''flood warning''"
  "normalize_text example_runtime (PyStr ''hello'') = Inr ''hello''"
  "normalize_text example_runtime (PyStr ''Flood in Mumbai'') = Inr ''flood in mumbai''"
  "normalize_text example_runtime (PyStr ''Cricket score'') = Inr ''cricket score''"
  "normalize_text example_runtime (PyStr ''Stock markets'') = Inr ''stock markets''"
  "normalize_text example_runtime (PyStr ''Flood [/b] alert'') = Inr ''flood [/b] alert''"
  by (simp_all add: normalize_text_def example_runtime_def ascii_lower_def lower_char_def
      strip_def drop_ws.simps ws_width_def whitespace_def)

lemma example_aliases:
  "city_aliases example_runtime (PyStr ''Delhi'') = Inr (snd (hd CITY_SYNONYMS))"
  by (simp add: city_aliases_def example_normalize and_then_def CITY_SYNONYMS_def)

lemma example_city_rule:
  "title_matches_city example_runtime ''Blast in Delhi'' (PyStr ''Delhi'') = Inr True"
  "title_matches_city example_runtime ''Flood warning'' (PyStr ''Delhi'') = Inr False"
  "title_matches_city example_runtime ''hello'' (PyStr ''Delhi'') = Inr False"
  "title_matches_city example_runtime ''Flood in Mumbai'' (PyStr ''Delhi'') = Inr False"
  "title_matches_city example_runtime ''Cricket score'' (PyStr ''Delhi'') = Inr False"
  "title_matches_city example_runtime ''Stock markets'' (PyStr ''Delhi'') = Inr False"
  "title_matches_city example_runtime ''Flood [/b] alert'' (PyStr ''Delhi'') = Inr False"
  by (simp_all add: title_matches_city_def example_normalize example_aliases and_then_def
      CITY_SYNONYMS_def)

lemma example_keyword_rule:
  "keyword_prefilter example_runtime ''Blast in Delhi'' IMPORTANT_KEYWORDS = Inr True"
  "keyword_prefilter example_runtime ''Flood warning'' IMPORTANT_KEYWORDS = Inr True"
  "keyword_prefilter example_runtime ''hello'' IMPORTANT_KEYWORDS = Inr False"
  "keyword_prefilter example_runtime ''Flood in Mumbai'' IMPORTANT_KEYWORDS = Inr True"
  "keyword_prefilter example_runtime ''Cricket score'' IMPORTANT_KEYWORDS = Inr False"
  "keyword_prefilter example_runtime ''Stock markets'' IMPORTANT_KEYWORDS = Inr False"
  "keyword_prefilter example_runtime ''Flood [/b] alert'' IMPORTANT_KEYWORDS = Inr True"
  by (simp_all add: keyword_prefilter_def example_normalize and_then_def
      IMPORTANT_KEYWORDS_def)

lemma example_notify_quiet:
  "example_notify ''Blast in Delhi'' l label sc = None"
  "example_notify ''Flood warning'' l label sc = None"
  "example_notify ''hello'' l label sc = None"
  "example_notify ''Flood in Mumbai'' l label sc = None"
  "example_notify ''Cricket score'' l label sc = None"
  "example_notify ''Stock markets'' l label sc = None"
  "example_notify ''Flood [/b] alert'' l label sc = Some MarkupError"
  by (simp_all add: example_notify_def)

text \<open>
  C3. A title whose normalized form contains an alias of the configured city and an alarm
  keyword is labelled "city-priority" with score 1.0, never "keyword", whatever the
  settings, the runtime and the reply the remote service would give: the item is built
  with that category and score, is important and is announced, and when the announcement
  returns the cycle holds the item in both lists, with no remote call made and the budget
  untouched. The only other outcome is that the announcement of this item raises.
\<close>

theorem city_rule_precedence:
  assumes "city_aliases rt city = Inr aliases" "alias \<in> set aliases"
    and "normalize_text rt (PyStr t) = Inr nt" "str_in alias nt"
    and "k \<in> set IMPORTANT_KEYWORDS" "str_in k nt"
  shows "classify cfg rt r city now notify v t l =
           (case notify t l (PyStr ''city-priority'') (Num 1) of
              Some e \<Rightarrow> Inl e
            | None \<Rightarrow>
                Inr (v\<lparr>cycle_news := cycle_news v @
                        [\<lparr>title = t, link = l, category = PyStr ''city-priority'',
                          score = Num 1, time = now, is_important = True\<rparr>],
                      cycle_important := cycle_important v @
                        [\<lparr>title = t, link = l, category = PyStr ''city-priority'',
                          score = Num 1, time = now, is_important = True\<rparr>],
                      alerts := alerts v @ [t]\<rparr>))
       \<and> keyword_prefilter rt t IMPORTANT_KEYWORDS = Inr True
       \<and> (\<forall>v'. classify cfg rt r city now notify v t l = Inr v' \<longrightarrow>
             category (last (cycle_news v')) = PyStr ''city-priority''
             \<and> score (last (cycle_news v')) = Num 1
             \<and> category (last (cycle_news v')) \<noteq> PyStr ''keyword''
             \<and> hf_calls v' = hf_calls v \<and> hf_budget v' = hf_budget v)"
proof -
  have city: "title_matches_city rt t city = Inr True"
    using assms(1-4) by (rule title_matches_cityI)
  have kw: "keyword_prefilter rt t IMPORTANT_KEYWORDS = Inr True"
    using assms(5,3,6) by (rule keyword_prefilterI)
  note eq = classify_city [OF city, of cfg r now notify v l]
  have "\<forall>v'. classify cfg rt r city now notify v t l = Inr v' \<longrightarrow>
             category (last (cycle_news v')) = PyStr ''city-priority''
             \<and> score (last (cycle_news v')) = Num 1
             \<and> category (last (cycle_news v')) \<noteq> PyStr ''keyword''
             \<and> hf_calls v' = hf_calls v \<and> hf_budget v' = hf_budget v"
    unfolding eq by (cases "notify t l (PyStr ''city-priority'') (Num 1)") auto
  then show ?thesis using eq kw by blast
qed

theorem city_rule_precedence_witness:
  "city_aliases example_runtime (PyStr ''Delhi'') = Inr (snd (hd CITY_SYNONYMS))
   \<and> ''delhi'' \<in> set (snd (hd CITY_SYNONYMS))
   \<and> normalize_text example_runtime (PyStr ''Blast in Delhi'') = Inr ''blast in delhi''
   \<and> str_in ''delhi'' ''blast in delhi''
   \<and> ''blast'' \<in> set IMPORTANT_KEYWORDS
   \<and> str_in ''blast'' ''blast in delhi''
   \<and> classify example_config example_runtime PostRaises (PyStr ''Delhi'') ''now''
        example_notify example_vars ''Blast in Delhi'' ''u'' =
       Inr (example_vars
             \<lparr>cycle_news :=
                [\<lparr>title = ''Blast in Delhi'', link = ''u'', category = PyStr ''city-priority'',
                  score = Num 1, time = ''now'', is_important = True\<rparr>],
              cycle_important :=
                [\<lparr>title = ''Blast in Delhi'', link = ''u'', category = PyStr ''city-priority'',
                  score = Num 1, time = ''now'', is_important = True\<rparr>],
              alerts := [''Blast in Delhi'']\<rparr>)"
proof -
  have a: "city_aliases example_runtime (PyStr ''Delhi'') = Inr (snd (hd CITY_SYNONYMS))"
    by (rule example_aliases)
  have b: "''delhi'' \<in> set (snd (hd CITY_SYNONYMS))"
    by (simp add: CITY_SYNONYMS_def)
  have c: "normalize_text example_runtime (PyStr ''Blast in Delhi'') = Inr ''blast in delhi''"
    by (rule example_normalize)
  have d: "str_in ''delhi'' ''blast in delhi''" by simp
  have e: "''blast'' \<in> set IMPORTANT_KEYWORDS" by (simp add: IMPORTANT_KEYWORDS_def)
  have f: "str_in ''blast'' ''blast in delhi''" by simp
  have run: "classify example_config example_runtime PostRaises (PyStr ''Delhi'') ''now''
        example_notify example_vars ''Blast in Delhi'' ''u'' =
       Inr (example_vars
             \<lparr>cycle_news :=
                [\<lparr>title = ''Blast in Delhi'', link = ''u'', category = PyStr ''city-priority'',
                  score = Num 1, time = ''now'', is_important = True\<rparr>],
              cycle_important :=
                [\<lparr>title = ''Blast in Delhi'', link = ''u'', category = PyStr ''city-priority'',
                  score = Num 1, time = ''now'', is_important = True\<rparr>],
              alerts := [''Blast in Delhi'']\<rparr>)"
    using city_rule_precedence [OF a b c d e f, of example_config PostRaises "''now''"
        example_notify example_vars "''u''"]
    by (simp add: example_notify_quiet example_vars_def)
  show ?thesis using a b c d e f run by blast
qed

text \<open>
  C4. A title with no city-alias match but a keyword match is labelled "keyword" with
  score 0.75 and is important, for every importance threshold, also one above 0.75: the
  item is built so and announced, and when the announcement returns the cycle holds it
  in both lists. The only other outcome is that the announcement of this item raises.
\<close>

theorem keyword_rule_forces_importance:
  assumes "title_matches_city rt t city = Inr False"
    and "keyword_prefilter rt t IMPORTANT_KEYWORDS = Inr True"
  shows "classify cfg rt r city now notify v t l =
           (case notify t l (PyStr ''keyword'') (Num 0.75) of
              Some e \<Rightarrow> Inl e
            | None \<Rightarrow>
                Inr (v\<lparr>cycle_news := cycle_news v @
                        [\<lparr>title = t, link = l, category = PyStr ''keyword'', score = Num 0.75,
                          time = now, is_important = True\<rparr>],
                      cycle_important := cycle_important v @
                        [\<lparr>title = t, link = l, category = PyStr ''keyword'', score = Num 0.75,
                          time = now, is_important = True\<rparr>],
                      alerts := alerts v @ [t]\<rparr>))"
  using assms by (rule classify_keyword)

theorem keyword_rule_forces_importance_witness:
  "title_matches_city example_runtime ''Flood warning'' (PyStr ''Delhi'') = Inr False
   \<and> keyword_prefilter example_runtime ''Flood warning'' IMPORTANT_KEYWORDS = Inr True
   \<and> \<not> float_ge (Num 0.75) (HF_SCORE_THRESHOLD (example_config\<lparr>HF_SCORE_THRESHOLD := Num 0.9\<rparr>))
   \<and> classify (example_config\<lparr>HF_SCORE_THRESHOLD := Num 0.9\<rparr>) example_runtime PostRaises
        (PyStr ''Delhi'') ''now'' example_notify example_vars ''Flood warning'' ''u'' =
       Inr (example_vars
             \<lparr>cycle_news :=
                [\<lparr>title = ''Flood warning'', link = ''u'', category = PyStr ''keyword'',
                  score = Num 0.75, time = ''now'', is_important = True\<rparr>],
              cycle_important :=
                [\<lparr>title = ''Flood warning'', link = ''u'', category = PyStr ''keyword'',
                  score = Num 0.75, time = ''now'', is_important = True\<rparr>],
              alerts := [''Flood warning'']\<rparr>)
   \<and> classify example_config example_runtime PostRaises (PyStr ''Delhi'') ''now''
        example_notify example_vars ''Flood [/b] alert'' ''u'' = Inl MarkupError"
  using keyword_rule_forces_importance [OF example_city_rule(2) example_keyword_rule(2),
      of "example_config\<lparr>HF_SCORE_THRESHOLD := Num 0.9\<rparr>" PostRaises "''now''"
      example_notify example_vars "''u''"]
    keyword_rule_forces_importance [OF example_city_rule(7) example_keyword_rule(7),
      of example_config PostRaises "''now''" example_notify example_vars "''u''"]
    example_city_rule(2) example_keyword_rule(2)
  by (simp add: example_notify_quiet example_vars_def)

lemma classify_unlabelled:
  assumes city: "title_matches_city rt t city = Inr False"
    and kw: "keyword_prefilter rt t IMPORTANT_KEYWORDS = Inr False"
    and nolabel: "\<not> HF_ENABLE cfg \<or> HF_API_KEY cfg = [] \<or> hf_budget v \<le> 0
         \<or> hf_classify cfg rt r t = Inr (PyNone, Num 0)"
  shows "\<exists>v1. (v1 = v \<or> v1 = v\<lparr>hf_calls := hf_calls v @ [t], hf_budget := hf_budget v - 1\<rparr>)
     \<and> classify cfg rt r city now notify v t l =
         (if float_ge (Num 0) (HF_SCORE_THRESHOLD cfg)
          then (case notify t l PyNone (Num 0) of
                  Some e \<Rightarrow> Inl e
                | None \<Rightarrow>
                    Inr (v1\<lparr>cycle_news := cycle_news v @
                            [\<lparr>title = t, link = l, category = PyStr ''general'',
                              score = Num 0, time = now, is_important = True\<rparr>],
                          cycle_important := cycle_important v @
                            [\<lparr>title = t, link = l, category = PyStr ''general'',
                              score = Num 0, time = now, is_important = True\<rparr>],
                          alerts := alerts v @ [t]\<rparr>))
          else Inr (v1\<lparr>cycle_news := cycle_news v @
                      [\<lparr>title = t, link = l, category = PyStr ''general'',
                        score = Num 0, time = now, is_important = False\<rparr>]\<rparr>))"
proof (cases "HF_ENABLE cfg \<and> HF_API_KEY cfg \<noteq> [] \<and> 0 < hf_budget v")
  case True
  then have call: "hf_classify cfg rt r t = Inr (PyNone, Num 0)" using nolabel by auto
  let ?v1 = "v\<lparr>hf_calls := hf_calls v @ [t], hf_budget := hf_budget v - 1\<rparr>"
  have lt: "label_title cfg rt r False False v t = Inr ((PyNone, Num 0), ?v1)"
    using True call by (simp add: label_title_def and_then_def)
  have "classify cfg rt r city now notify v t l =
         (if float_ge (Num 0) (HF_SCORE_THRESHOLD cfg)
          then (case notify t l PyNone (Num 0) of
                  Some e \<Rightarrow> Inl e
                | None \<Rightarrow>
                    Inr (?v1\<lparr>cycle_news := cycle_news v @
                            [\<lparr>title = t, link = l, category = PyStr ''general'',
                              score = Num 0, time = now, is_important = True\<rparr>],
                          cycle_important := cycle_important v @
                            [\<lparr>title = t, link = l, category = PyStr ''general'',
                              score = Num 0, time = now, is_important = True\<rparr>],
                          alerts := alerts v @ [t]\<rparr>))
          else Inr (?v1\<lparr>cycle_news := cycle_news v @
                      [\<lparr>title = t, link = l, category = PyStr ''general'',
                        score = Num 0, time = now, is_important = False\<rparr>]\<rparr>))"
    using lt city kw
    by (cases "notify t l PyNone (Num 0)")
       (simp_all add: classify_def and_then_def make_news_item_def Let_def)
  then show ?thesis by blast
next
  case False
  have lt: "label_title cfg rt r False False v t = Inr ((PyNone, Num 0), v)"
    using False by (auto simp: label_title_def)
  have "classify cfg rt r city now notify v t l =
         (if float_ge (Num 0) (HF_SCORE_THRESHOLD cfg)
          then (case notify t l PyNone (Num 0) of
                  Some e \<Rightarrow> Inl e
                | None \<Rightarrow>
                    Inr (v\<lparr>cycle_news := cycle_news v @
                            [\<lparr>title = t, link = l, category = PyStr ''general'',
                              score = Num 0, time = now, is_important = True\<rparr>],
                          cycle_important := cycle_important v @
                            [\<lparr>title = t, link = l, category = PyStr ''general'',
                              score = Num 0, time = now, is_important = True\<rparr>],
                          alerts := alerts v @ [t]\<rparr>))
          else Inr (v\<lparr>cycle_news := cycle_news v @
                      [\<lparr>title = t, link = l, category = PyStr ''general'',
                        score = Num 0, time = now, is_important = False\<rparr>]\<rparr>))"
    using lt city kw
    by (cases "notify t l PyNone (Num 0)")
       (simp_all add: classify_def and_then_def make_news_item_def Let_def)
  then show ?thesis by blast
qed

text \<open>
  C7 as stated fails: with the importance threshold set to 0.0 (and the remote classifier
  switched off) the title "hello", which matches neither rule, becomes a "general" item
  with score 0.0 that is important, because \<open>0.0 >= 0.0\<close> holds.
\<close>

theorem general_item_important_at_threshold_0:
  "title_matches_city example_runtime ''hello'' (PyStr ''Delhi'') = Inr False
   \<and> keyword_prefilter example_runtime ''hello'' IMPORTANT_KEYWORDS = Inr False
   \<and> \<not> HF_ENABLE (example_config\<lparr>HF_ENABLE := False, HF_SCORE_THRESHOLD := Num 0\<rparr>)
   \<and> classify (example_config\<lparr>HF_ENABLE := False, HF_SCORE_THRESHOLD := Num 0\<rparr>)
        example_runtime PostRaises (PyStr ''Delhi'') ''now'' example_notify example_vars
        ''hello'' ''u'' =
       Inr (example_vars
             \<lparr>cycle_news :=
                [\<lparr>title = ''hello'', link = ''u'', category = PyStr ''general'',
                  score = Num 0, time = ''now'', is_important = True\<rparr>],
              cycle_important :=
                [\<lparr>title = ''hello'', link = ''u'', category = PyStr ''general'',
                  score = Num 0, time = ''now'', is_important = True\<rparr>],
              alerts := [''hello'']\<rparr>)"
  using example_city_rule(3) example_keyword_rule(3)
  by (simp add: classify_def and_then_def label_title_def make_news_item_def Let_def
      example_vars_def example_notify_quiet)

text \<open>
  C7, amended. A title that matches neither the city rule nor the keyword rule, and for
  which remote classification produces no label (switched off, no credentials, budget
  exhausted, or a call that comes back with no label and score 0.0), is labelled
  "general" with score 0.0, and its importance is the outcome of \<open>0.0 >= threshold\<close>.
  When the threshold is above 0.0 (as the default 0.50 is), or is NaN, the item is not
  important: it enters the list of all items only and nothing is announced. Otherwise it
  is important and announced, and enters both lists unless the announcement raises. In
  either case the budget is untouched, or one call was made and paid for.
\<close>

theorem unlabelled_title_is_general:
  assumes "title_matches_city rt t city = Inr False"
    and "keyword_prefilter rt t IMPORTANT_KEYWORDS = Inr False"
    and "\<not> HF_ENABLE cfg \<or> HF_API_KEY cfg = [] \<or> hf_budget v \<le> 0
         \<or> hf_classify cfg rt r t = Inr (PyNone, Num 0)"
  shows "(\<exists>v1. (v1 = v \<or> v1 = v\<lparr>hf_calls := hf_calls v @ [t], hf_budget := hf_budget v - 1\<rparr>)
     \<and> classify cfg rt r city now notify v t l =
         (if float_ge (Num 0) (HF_SCORE_THRESHOLD cfg)
          then (case notify t l PyNone (Num 0) of
                  Some e \<Rightarrow> Inl e
                | None \<Rightarrow>
                    Inr (v1\<lparr>cycle_news := cycle_news v @
                            [\<lparr>title = t, link = l, category = PyStr ''general'',
                              score = Num 0, time = now, is_important = True\<rparr>],
                          cycle_important := cycle_important v @
                            [\<lparr>title = t, link = l, category = PyStr ''general'',
                              score = Num 0, time = now, is_important = True\<rparr>],
                          alerts := alerts v @ [t]\<rparr>))
          else Inr (v1\<lparr>cycle_news := cycle_news v @
                      [\<lparr>title = t, link = l, category = PyStr ''general'',
                        score = Num 0, time = now, is_important = False\<rparr>]\<rparr>)))
     \<and> (\<forall>x. HF_SCORE_THRESHOLD cfg = Num x \<longrightarrow>
           float_ge (Num 0) (HF_SCORE_THRESHOLD cfg) = (x \<le> 0))
     \<and> (HF_SCORE_THRESHOLD cfg = NaN \<longrightarrow> \<not> float_ge (Num 0) (HF_SCORE_THRESHOLD cfg))"
  using classify_unlabelled [OF assms, of now notify l] by simp

lemma example_config_fields:
  "HF_ENABLE example_config" "HF_API_KEY example_config = ''key''"
  "HF_SCORE_THRESHOLD example_config = Num 0.5" "HF_MAX_PER_CYCLE example_config = 20"
  "SEEN_CAPACITY example_config = 1000"
  by (simp_all add: example_config_def)

lemma example_timeout:
  "hf_classify example_config rt PostRaises t = Inr (PyNone, Num 0)"
  by (simp add: hf_classify_def hf_request_def try_except_def)

theorem unlabelled_title_is_general_witness:
  "title_matches_city example_runtime ''hello'' (PyStr ''Delhi'') = Inr False
   \<and> keyword_prefilter example_runtime ''hello'' IMPORTANT_KEYWORDS = Inr False
   \<and> hf_classify example_config example_runtime PostRaises ''hello'' = Inr (PyNone, Num 0)
   \<and> (\<exists>v1. (v1 = example_vars
             \<or> v1 = example_vars\<lparr>hf_calls := hf_calls example_vars @ [''hello''],
                                  hf_budget := hf_budget example_vars - 1\<rparr>)
         \<and> classify example_config example_runtime PostRaises (PyStr ''Delhi'') ''now''
              example_notify example_vars ''hello'' ''u'' =
             Inr (v1\<lparr>cycle_news :=
                       [\<lparr>title = ''hello'', link = ''u'', category = PyStr ''general'',
                         score = Num 0, time = ''now'', is_important = False\<rparr>]\<rparr>))"
proof -
  have failed:
    "hf_classify example_config example_runtime PostRaises ''hello'' = Inr (PyNone, Num 0)"
    by (rule example_timeout)
  then have nolabel: "\<not> HF_ENABLE example_config \<or> HF_API_KEY example_config = []
      \<or> hf_budget example_vars \<le> 0
      \<or> hf_classify example_config example_runtime PostRaises ''hello'' = Inr (PyNone, Num 0)"
    by simp
  have news: "cycle_news example_vars = []" by (simp add: example_vars_def)
  have run: "\<exists>v1. (v1 = example_vars
             \<or> v1 = example_vars\<lparr>hf_calls := hf_calls example_vars @ [''hello''],
                                  hf_budget := hf_budget example_vars - 1\<rparr>)
         \<and> classify example_config example_runtime PostRaises (PyStr ''Delhi'') ''now''
              example_notify example_vars ''hello'' ''u'' =
             Inr (v1\<lparr>cycle_news :=
                       [\<lparr>title = ''hello'', link = ''u'', category = PyStr ''general'',
                         score = Num 0, time = ''now'', is_important = False\<rparr>]\<rparr>)"
    using unlabelled_title_is_general [OF example_city_rule(3) example_keyword_rule(3) nolabel,
        of "''now''" example_notify "''u''"]
    by (simp add: example_config_fields news)
  show ?thesis
    using example_city_rule(3) example_keyword_rule(3) failed run by blast
qed

section \<open>The remote classification client\<close>

lemma py_in_dict: "py_in k (PyDict kvs) = Inr (map_of kvs k \<noteq> None)"
  by (simp add: map_of_eq_None_iff)

lemma getitem_0_first:
  "(\<exists>e. getitem_0 x = Inl e \<and> first_of x = None)
   \<or> (\<exists>y. getitem_0 x = Inr y \<and> first_of x = Some y)"
  by (cases x rule: first_of.cases) auto

text \<open>What the \<^verbatim>\<open>try\<close> block and its handler return, by the shape of the reply.\<close>

lemma hf_request_shape:
  "try_except (hf_request rt r) (\<lambda>e. Inr (PyNone, Num 0)) =
     Inr (case members r of
            None \<Rightarrow> (PyNone, Num 0)
          | Some (ls, ss) \<Rightarrow>
              (case first_of ls of
                 None \<Rightarrow> (PyNone, Num 0)
               | Some label \<Rightarrow>
                   (case first_of ss of
                      None \<Rightarrow> (PyNone, Num 0)
                    | Some s \<Rightarrow>
                        (case py_float rt s of
                           Inl e \<Rightarrow> (PyNone, Num 0)
                         | Inr f \<Rightarrow> (label, f)))))"
proof (cases r)
  case PostRaises
  then show ?thesis by (simp add: hf_request_def try_except_def)
next
  case JsonRaises
  then show ?thesis by (simp add: hf_request_def try_except_def)
next
  case (Decoded data)
  show ?thesis
  proof (cases data)
    case (PyDict kvs)
    show ?thesis
    proof (cases "map_of kvs ''labels''")
      case None
      then show ?thesis
        using Decoded PyDict
        by (simp add: hf_request_def try_except_def and_then_def py_in_dict del: py_in.simps)
    next
      case ls: (Some ls)
      show ?thesis
      proof (cases "map_of kvs ''scores''")
        case None
        then show ?thesis
          using Decoded PyDict ls
          by (simp add: hf_request_def try_except_def and_then_def py_in_dict
              del: py_in.simps)
      next
        case ss: (Some ss)
        have req: "hf_request rt r =
            and_then (getitem_0 ls) (\<lambda>label.
            and_then (getitem_0 ss) (\<lambda>s.
            and_then (py_float rt s) (\<lambda>score. Inr (label, score))))"
          using Decoded PyDict ls ss
          by (simp add: hf_request_def and_then_def py_in_dict del: py_in.simps)
        have mem: "members r = Some (ls, ss)" using Decoded PyDict ls ss by simp
        from getitem_0_first [of ls] getitem_0_first [of ss]
        show ?thesis
          unfolding req mem
          by (cases "py_float rt (the (first_of ss))")
             (auto simp: try_except_def and_then_def)
      qed
    qed
  qed (simp_all add: Decoded hf_request_def try_except_def and_then_def)
qed

text \<open>
  C9 as stated fails: a reply whose \<^verbatim>\<open>labels\<close> member is the string "attack" rather than a
  list has no well-formed label list, yet the client returns the first character of that
  string as the label, with the score 0.9, instead of \<open>(None, 0.0)\<close>.
\<close>

theorem hf_classify_accepts_string_labels:
  "\<not> well_formed_lists
        (Decoded (PyDict [(''labels'', PyStr ''attack''),
                          (''scores'', PyList [PyFloat (Num 0.9)])]))
   \<and> hf_classify example_config example_runtime
        (Decoded (PyDict [(''labels'', PyStr ''attack''),
                          (''scores'', PyList [PyFloat (Num 0.9)])])) ''some text''
       = Inr (PyStr ''a'', Num 0.9)
   \<and> hf_classify example_config example_runtime
        (Decoded (PyDict [(''labels'', PyStr ''attack''),
                          (''scores'', PyList [PyFloat (Num 0.9)])])) ''some text''
       \<noteq> Inr (PyNone, Num 0)"
  by (simp add: hf_classify_def hf_request_def try_except_def and_then_def
      example_config_def first_char_def utf8_width_def)

text \<open>
  C9, amended. For every input text, every runtime and every reply, the client never
  raises to its caller, and what it returns is fixed by the shape of the reply. It
  returns \<open>(None, 0.0)\<close> whenever the call is switched off, lacks credentials, the request
  raises (network error, timeout), the body is not JSON, the decoded document is not a
  dict with the members \<^verbatim>\<open>labels\<close> and \<^verbatim>\<open>scores\<close>, one of the two members has no first element
  (an empty list or string, or an object that cannot be indexed by 0), or the first
  score cannot be converted to a float (it is no number, or a string or integer that
  \<^verbatim>\<open>float\<close> rejects). In every other case it returns the first element of \<^verbatim>\<open>labels\<close> with the
  first element of \<^verbatim>\<open>scores\<close> as a float; the members need not be lists for that.
\<close>

theorem hf_classify_fails_open:
  "hf_classify cfg rt r text =
     Inr (if \<not> HF_ENABLE cfg \<or> HF_API_KEY cfg = [] then (PyNone, Num 0)
          else case members r of
                 None \<Rightarrow> (PyNone, Num 0)
               | Some (ls, ss) \<Rightarrow>
                   (case first_of ls of
                      None \<Rightarrow> (PyNone, Num 0)
                    | Some label \<Rightarrow>
                        (case first_of ss of
                           None \<Rightarrow> (PyNone, Num 0)
                         | Some s \<Rightarrow>
                             (case py_float rt s of
                                Inl e \<Rightarrow> (PyNone, Num 0)
                              | Inr f \<Rightarrow> (label, f)))))
   \<and> (\<not> HF_ENABLE cfg \<or> HF_API_KEY cfg = [] \<or> r = PostRaises \<or> r = JsonRaises
        \<or> members r = None
        \<or> (\<exists>ls ss. members r = Some (ls, ss)
              \<and> (first_of ls = None \<or> first_of ss = None
                   \<or> (\<exists>s e. first_of ss = Some s \<and> py_float rt s = Inl e)))
       \<longrightarrow> hf_classify cfg rt r text = Inr (PyNone, Num 0))"
proof -
  have eq: "hf_classify cfg rt r text =
     Inr (if \<not> HF_ENABLE cfg \<or> HF_API_KEY cfg = [] then (PyNone, Num 0)
          else case members r of
                 None \<Rightarrow> (PyNone, Num 0)
               | Some (ls, ss) \<Rightarrow>
                   (case first_of ls of
                      None \<Rightarrow> (PyNone, Num 0)
                    | Some label \<Rightarrow>
                        (case first_of ss of
                           None \<Rightarrow> (PyNone, Num 0)
                         | Some s \<Rightarrow>
                             (case py_float rt s of
                                Inl e \<Rightarrow> (PyNone, Num 0)
                              | Inr f \<Rightarrow> (label, f)))))"
    by (simp add: hf_classify_def hf_request_shape)
  have none: "\<not> HF_ENABLE cfg \<or> HF_API_KEY cfg = [] \<or> r = PostRaises \<or> r = JsonRaises
        \<or> members r = None
        \<or> (\<exists>ls ss. members r = Some (ls, ss)
              \<and> (first_of ls = None \<or> first_of ss = None
                   \<or> (\<exists>s e. first_of ss = Some s \<and> py_float rt s = Inl e)))
       \<longrightarrow> hf_classify cfg rt r text = Inr (PyNone, Num 0)"
    unfolding eq by (auto split: option.splits)
  show ?thesis using eq none by (rule conjI)
qed

theorem hf_classify_fails_open_witness:
  "hf_classify (example_config\<lparr>HF_ENABLE := False\<rparr>) example_runtime
        (Decoded (PyDict [(''labels'', PyList [PyStr ''war'']), (''scores'', PyList [PyFloat (Num 0.9)])])) ''some text''
       = Inr (PyNone, Num 0)
   \<and> hf_classify (example_config\<lparr>HF_API_KEY := []\<rparr>) example_runtime
        (Decoded (PyDict [(''labels'', PyList [PyStr ''war'']), (''scores'', PyList [PyFloat (Num 0.9)])])) ''some text''
       = Inr (PyNone, Num 0)
   \<and> hf_classify example_config example_runtime
        (PostRaises) ''some text''
       = Inr (PyNone, Num 0)
   \<and> hf_classify example_config example_runtime
        (JsonRaises) ''some text''
       = Inr (PyNone, Num 0)
   \<and> hf_classify example_config example_runtime
        (Decoded (PyDict [(''error'', PyStr ''loading'')])) ''some text''
       = Inr (PyNone, Num 0)
   \<and> hf_classify example_config example_runtime
        (Decoded (PyList [PyStr ''labels'', PyStr ''scores''])) ''some text''
       = Inr (PyNone, Num 0)
   \<and> hf_classify example_config example_runtime
        (Decoded (PyDict [(''labels'', PyList []), (''scores'', PyList [])])) ''some text''
       = Inr (PyNone, Num 0)
   \<and> hf_classify example_config example_runtime
        (Decoded (PyDict [(''labels'', PyInt 3), (''scores'', PyList [PyFloat (Num 0.9)])])) ''some text''
       = Inr (PyNone, Num 0)
   \<and> hf_classify example_config example_runtime
        (Decoded (PyDict [(''labels'', PyList [PyStr ''war'']), (''scores'', PyList [PyNone])])) ''some text''
       = Inr (PyNone, Num 0)
   \<and> hf_classify example_config example_runtime
        (Decoded (PyDict [(''labels'', PyList [PyStr ''war'']), (''scores'', PyList [PyStr ''high''])])) ''some text''
       = Inr (PyNone, Num 0)
   \<and> hf_classify example_config example_runtime
        (Decoded (PyDict [(''labels'', PyList [PyStr ''war'']), (''scores'', PyList [PyFloat (Num 0.9)])])) ''some text''
       = Inr (PyStr ''war'', Num 0.9)"
proof -
  have c1: "hf_classify (example_config\<lparr>HF_ENABLE := False\<rparr>) example_runtime
          (Decoded (PyDict [(''labels'', PyList [PyStr ''war'']), (''scores'', PyList [PyFloat (Num 0.9)])])) ''some text''
         = Inr (PyNone, Num 0)"
    using hf_classify_fails_open [of "example_config\<lparr>HF_ENABLE := False\<rparr>" example_runtime
        "Decoded (PyDict [(''labels'', PyList [PyStr ''war'']), (''scores'', PyList [PyFloat (Num 0.9)])])" "''some text''"]
    by (simp add: example_config_def example_runtime_def no_strings_def)
  have c2: "hf_classify (example_config\<lparr>HF_API_KEY := []\<rparr>) example_runtime
          (Decoded (PyDict [(''labels'', PyList [PyStr ''war'']), (''scores'', PyList [PyFloat (Num 0.9)])])) ''some text''
         = Inr (PyNone, Num 0)"
    using hf_classify_fails_open [of "example_config\<lparr>HF_API_KEY := []\<rparr>" example_runtime
        "Decoded (PyDict [(''labels'', PyList [PyStr ''war'']), (''scores'', PyList [PyFloat (Num 0.9)])])" "''some text''"]
    by (simp add: example_config_def example_runtime_def no_strings_def)
  have c3: "hf_classify example_config example_runtime
          (PostRaises) ''some text''
         = Inr (PyNone, Num 0)"
    using hf_classify_fails_open [of example_config example_runtime
        "PostRaises" "''some text''"]
    by (simp add: example_config_def example_runtime_def no_strings_def)
  have c4: "hf_classify example_config example_runtime
          (JsonRaises) ''some text''
         = Inr (PyNone, Num 0)"
    using hf_classify_fails_open [of example_config example_runtime
        "JsonRaises" "''some text''"]
    by (simp add: example_config_def example_runtime_def no_strings_def)
  have c5: "hf_classify example_config example_runtime
          (Decoded (PyDict [(''error'', PyStr ''loading'')])) ''some text''
         = Inr (PyNone, Num 0)"
    using hf_classify_fails_open [of example_config example_runtime
        "Decoded (PyDict [(''error'', PyStr ''loading'')])" "''some text''"]
    by (simp add: example_config_def example_runtime_def no_strings_def)
  have c6: "hf_classify example_config example_runtime
          (Decoded (PyList [PyStr ''labels'', PyStr ''scores''])) ''some text''
         = Inr (PyNone, Num 0)"
    using hf_classify_fails_open [of example_config example_runtime
        "Decoded (PyList [PyStr ''labels'', PyStr ''scores''])" "''some text''"]
    by (simp add: example_config_def example_runtime_def no_strings_def)
  have c7: "hf_classify example_config example_runtime
          (Decoded (PyDict [(''labels'', PyList []), (''scores'', PyList [])])) ''some text''
         = Inr (PyNone, Num 0)"
    using hf_classify_fails_open [of example_config example_runtime
        "Decoded (PyDict [(''labels'', PyList []), (''scores'', PyList [])])" "''some text''"]
    by (simp add: example_config_def example_runtime_def no_strings_def)
  have c8: "hf_classify example_config example_runtime
          (Decoded (PyDict [(''labels'', PyInt 3), (''scores'', PyList [PyFloat (Num 0.9)])])) ''some text''
         = Inr (PyNone, Num 0)"
    using hf_classify_fails_open [of example_config example_runtime
        "Decoded (PyDict [(''labels'', PyInt 3), (''scores'', PyList [PyFloat (Num 0.9)])])" "''some text''"]
    by (simp add: example_config_def example_runtime_def no_strings_def)
  have c9: "hf_classify example_config example_runtime
          (Decoded (PyDict [(''labels'', PyList [PyStr ''war'']), (''scores'', PyList [PyNone])])) ''some text''
         = Inr (PyNone, Num 0)"
    using hf_classify_fails_open [of example_config example_runtime
        "Decoded (PyDict [(''labels'', PyList [PyStr ''war'']), (''scores'', PyList [PyNone])])" "''some text''"]
    by (simp add: example_config_def example_runtime_def no_strings_def)
  have c10: "hf_classify example_config example_runtime
          (Decoded (PyDict [(''labels'', PyList [PyStr ''war'']), (''scores'', PyList [PyStr ''high''])])) ''some text''
         = Inr (PyNone, Num 0)"
    using hf_classify_fails_open [of example_config example_runtime
        "Decoded (PyDict [(''labels'', PyList [PyStr ''war'']), (''scores'', PyList [PyStr ''high''])])" "''some text''"]
    by (simp add: example_config_def example_runtime_def no_strings_def)
  have c11: "hf_classify example_config example_runtime
          (Decoded (PyDict [(''labels'', PyList [PyStr ''war'']), (''scores'', PyList [PyFloat (Num 0.9)])])) ''some text''
         = Inr (PyStr ''war'', Num 0.9)"
    using hf_classify_fails_open [of example_config example_runtime
        "Decoded (PyDict [(''labels'', PyList [PyStr ''war'']), (''scores'', PyList [PyFloat (Num 0.9)])])" "''some text''"]
    by (simp add: example_config_def example_runtime_def no_strings_def)
  show ?thesis
    using c1 c2 c3 c4 c5 c6 c7 c8 c9 c10 c11 by blast
qed

section \<open>The cycle\<close>

lemma prune_total: "enumerates iter \<Longrightarrow> \<exists>S'. prune iter q S = Inr S'"
proof (induction iter q S rule: prune.induct)
  case (1 iter q S)
  show ?case
  proof (cases "length q < length S")
    case False
    then show ?thesis by (subst prune.simps) simp
  next
    case True
    show ?thesis
    proof (cases "find (\<lambda>s. s \<notin> set q) (iter S)")
      case None
      then show ?thesis using True by (subst prune.simps) simp
    next
      case (Some s)
      then have "s \<in> set (iter S)" by (auto simp: find_Some_iff)
      then have mem: "s \<in> set S" using "1.prems" by (simp add: enumerates_def)
      then have rm: "set_remove S s = Inr (remove1 s S)" by (simp add: set_remove_def)
      from "1.IH" [OF True Some rm "1.prems"] obtain S' where
        "prune iter q (remove1 s S) = Inr S'" by blast
      then show ?thesis using True Some rm by (subst prune.simps) simp
    qed
  qed
qed

text \<open>\<open>seen\<close> never raises, and answers by membership in the set.\<close>

lemma seen_total:
  assumes "enumerates iter"
  shows "\<exists>d'. seen iter d key = Inr (strip key \<in> set (dset d), d')"
proof (cases "strip key \<in> set (dset d)")
  case True
  then show ?thesis by (simp add: seen_def)
next
  case False
  from prune_total [OF assms] obtain S' where
    "prune iter (deque_append (capacity d) (queue d) (strip key))
        (set_add (dset d) (strip key)) = Inr S'"
    by blast
  then show ?thesis using False by (simp add: seen_def Let_def)
qed

lemma budget_step_refl: "budget_step v v"
  by (simp add: budget_step_def)

lemma budget_step_trans:
  assumes "budget_step v v1" "budget_step v1 v2"
  shows "budget_step v v2"
proof -
  from assms(1) obtain s1 where
    1: "hf_calls v1 = hf_calls v @ s1" "hf_budget v1 = hf_budget v - int (length s1)"
       "hf_budget v \<le> 0 \<longrightarrow> s1 = []" "0 \<le> hf_budget v \<longrightarrow> 0 \<le> hf_budget v1"
    unfolding budget_step_def by blast
  from assms(2) obtain s2 where
    2: "hf_calls v2 = hf_calls v1 @ s2" "hf_budget v2 = hf_budget v1 - int (length s2)"
       "hf_budget v1 \<le> 0 \<longrightarrow> s2 = []" "0 \<le> hf_budget v1 \<longrightarrow> 0 \<le> hf_budget v2"
    unfolding budget_step_def by blast
  have a: "hf_calls v2 = hf_calls v @ (s1 @ s2)" using 1(1) 2(1) by simp
  have b: "hf_budget v2 = hf_budget v - int (length (s1 @ s2))" using 1(2) 2(2) by simp
  have c: "hf_budget v \<le> 0 \<longrightarrow> s1 @ s2 = []" using 1(2,3) 2(3) by auto
  have d: "0 \<le> hf_budget v \<longrightarrow> 0 \<le> hf_budget v2" using 1(4) 2(4) by simp
  show ?thesis unfolding budget_step_def using a b c d by blast
qed

lemma label_title_budget_step:
  assumes "label_title cfg rt r is_city is_keyword v t = Inr (labelled, v1)"
  shows "budget_step v v1 \<and> dedup v1 = dedup v \<and> cycle_news v1 = cycle_news v
     \<and> cycle_important v1 = cycle_important v"
proof (cases "\<not> is_city \<and> \<not> is_keyword \<and> HF_ENABLE cfg \<and> HF_API_KEY cfg \<noteq> []
    \<and> 0 < hf_budget v")
  case True
  then have "v1 = v\<lparr>hf_calls := hf_calls v @ [t], hf_budget := hf_budget v - 1\<rparr>"
    using assms
    by (cases "hf_classify cfg rt r t") (auto simp: label_title_def and_then_def)
  then show ?thesis
    using True unfolding budget_step_def by (auto intro: exI [of _ "[t]"])
next
  case False
  then have "v1 = v" using assms by (auto simp: label_title_def split: if_splits)
  then show ?thesis by (simp add: budget_step_refl)
qed

text \<open>A title that is classified to the end keeps the two properties of the cycle.\<close>

lemma classify_step:
  assumes run: "classify cfg rt r city now notify v t l = Inr v'"
  shows "budget_step v v'
     \<and> (cycle_important v = filter is_important (cycle_news v)
          \<longrightarrow> cycle_important v' = filter is_important (cycle_news v'))"
proof -
  from run obtain is_city where
    c: "title_matches_city rt t city = Inr is_city"
    by (cases "title_matches_city rt t city") (auto simp: classify_def and_then_def)
  obtain is_keyword where
    k: "keyword_prefilter rt t IMPORTANT_KEYWORDS = Inr is_keyword"
    by (simp add: keyword_prefilter_eq)
  from run c k obtain labelled v1 where
    lt: "label_title cfg rt r is_city is_keyword v t = Inr (labelled, v1)"
    by (cases "label_title cfg rt r is_city is_keyword v t")
       (auto simp: classify_def and_then_def)
  note p = label_title_budget_step [OF lt]
  let ?item = "make_news_item cfg now t l (fst labelled) (snd labelled) is_keyword"
  show ?thesis
  proof (cases "is_important ?item")
    case False
    then have "v' = v1\<lparr>cycle_news := cycle_news v1 @ [?item]\<rparr>"
      using run c k lt by (simp add: classify_def and_then_def Let_def)
    then show ?thesis using p False by (simp add: budget_step_def)
  next
    case True
    then have "v' = v1\<lparr>cycle_news := cycle_news v1 @ [?item],
                        cycle_important := cycle_important v1 @ [?item],
                        alerts := alerts v1 @ [t]\<rparr>"
      using run c k lt
      by (cases "notify t l (fst labelled) (snd labelled)")
         (simp_all add: classify_def and_then_def Let_def)
    then show ?thesis using p True by (simp add: budget_step_def)
  qed
qed

lemma loop_body_step:
  assumes run: "loop_body cfg w n i v news = Inr v'"
  shows "budget_step v v'
     \<and> (cycle_important v = filter is_important (cycle_news v)
          \<longrightarrow> cycle_important v' = filter is_important (cycle_news v'))"
proof (cases "dict_get news ''title'' [] = []")
  case True
  then have "v' = v" using run by (simp add: loop_body_def)
  then show ?thesis by (simp add: budget_step_refl)
next
  case False
  let ?t = "dict_get news ''title'' []"
  from run False obtain b d where
    s: "seen (set_order w) (dedup v) ?t = Inr (b, d)"
    by (cases "seen (set_order w) (dedup v) ?t") (auto simp: loop_body_def Let_def)
  show ?thesis
  proof (cases b)
    case True
    then have "v' = v\<lparr>dedup := d\<rparr>"
      using run False s by (simp add: loop_body_def Let_def)
    then show ?thesis by (simp add: budget_step_def)
  next
    case new: False
    let ?v1 = "v\<lparr>dedup := d\<rparr>"
    have "classify cfg (python w) (post_at w n i ?t) (city_at w n i) (now_at w n i)
            (notify_at w n i) ?v1 ?t (dict_get news ''link'' []) = Inr v'"
      using run False s new by (simp add: loop_body_def Let_def)
    from classify_step [OF this] show ?thesis by (simp add: budget_step_def)
  qed
qed

lemma for_items_step:
  "for_items cfg w n i v items = Inr v' \<Longrightarrow>
     budget_step v v'
     \<and> (cycle_important v = filter is_important (cycle_news v)
          \<longrightarrow> cycle_important v' = filter is_important (cycle_news v'))"
proof (induction items arbitrary: i v)
  case Nil
  then show ?case by (simp add: budget_step_refl)
next
  case (Cons news rest)
  from Cons.prems obtain v1 where
    1: "loop_body cfg w n i v news = Inr v1"
    and 2: "for_items cfg w n (Suc i) v1 rest = Inr v'"
    by (cases "loop_body cfg w n i v news") auto
  note a = loop_body_step [OF 1]
  note b = Cons.IH [OF 2]
  have "budget_step v v'" using a b by (blast intro: budget_step_trans)
  then show ?case using a b by blast
qed

lemma normalize_text_ok: "city_ok x \<Longrightarrow> \<exists>c. normalize_text rt x = Inr c"
  by (cases x) (auto simp: normalize_text_def)

lemma hf_classify_total: "\<exists>res. hf_classify cfg rt r t = Inr res"
  by (simp add: hf_classify_def hf_request_shape)

lemma label_title_total: "\<exists>res. label_title cfg rt r is_city is_keyword v t = Inr res"
  using hf_classify_total [of cfg rt r t]
  by (auto simp: label_title_def and_then_def)

text \<open>With a city that can be normalized and an announcement that returns, nothing raises.\<close>

lemma classify_total:
  assumes "city_ok city" "\<forall>t l label sc. notify t l label sc = None"
  shows "\<exists>v'. classify cfg rt r city now notify v t l = Inr v'"
proof -
  from normalize_text_ok [OF assms(1)] obtain c where "normalize_text rt city = Inr c"
    by blast
  then obtain is_city where c: "title_matches_city rt t city = Inr is_city"
    by (simp add: title_matches_city_def city_aliases_def normalize_text_str and_then_def)
  obtain is_keyword where k: "keyword_prefilter rt t IMPORTANT_KEYWORDS = Inr is_keyword"
    by (simp add: keyword_prefilter_eq)
  from label_title_total obtain labelled v1 where
    "label_title cfg rt r is_city is_keyword v t = Inr (labelled, v1)"
    by fastforce
  then show ?thesis
    using c k assms(2) by (simp add: classify_def and_then_def Let_def)
qed

lemma loop_body_total:
  assumes "quiet w"
  shows "\<exists>v'. loop_body cfg w n i v news = Inr v'"
proof (cases "dict_get news ''title'' [] = []")
  case True
  then show ?thesis by (simp add: loop_body_def)
next
  case False
  let ?t = "dict_get news ''title'' []"
  have it: "enumerates (set_order w)" using assms by (simp add: quiet_def)
  from seen_total [OF it, of "dedup v" ?t] obtain d' where
    s: "seen (set_order w) (dedup v) ?t = Inr (strip ?t \<in> set (dset (dedup v)), d')"
    by blast
  have "city_ok (city_at w n i)"
    and "\<forall>t l label sc. notify_at w n i t l label sc = None"
    using assms by (simp_all add: quiet_def)
  from classify_total [OF this] obtain v' where
    "classify cfg (python w) (post_at w n i ?t) (city_at w n i) (now_at w n i)
       (notify_at w n i) (v\<lparr>dedup := d'\<rparr>) ?t (dict_get news ''link'' []) = Inr v'"
    by blast
  then show ?thesis
    using False s
    by (cases "strip ?t \<in> set (dset (dedup v))") (simp_all add: loop_body_def Let_def)
qed

lemma for_items_total:
  assumes "quiet w"
  shows "\<exists>v'. for_items cfg w n i v items = Inr v'"
proof (induction items arbitrary: i v)
  case Nil
  then show ?case by simp
next
  case (Cons news rest)
  from loop_body_total [OF assms, of cfg n i v news] obtain v1 where
    "loop_body cfg w n i v news = Inr v1" by blast
  moreover from Cons.IH [of "Suc i" v1] obtain v' where
    "for_items cfg w n (Suc i) v1 rest = Inr v'" by blast
  ultimately show ?case by simp
qed

lemma cycle_body_total:
  assumes "quiet w"
  shows "\<exists>a'. cycle_body cfg w a = Inr a'"
proof (cases "fetch_rss (feed_at w (cycle a + 1)) = []")
  case True
  then show ?thesis by (simp add: cycle_body_def)
next
  case False
  from for_items_total [OF assms] obtain v' where
    "for_items cfg w (cycle a + 1) 0
       \<lparr>dedup = app_dedup a, cycle_news = [], cycle_important = [],
        hf_budget = HF_MAX_PER_CYCLE cfg, hf_calls = [], alerts = []\<rparr>
       (fetch_rss (feed_at w (cycle a + 1))) = Inr v'"
    by blast
  then show ?thesis using False by (simp add: cycle_body_def Let_def)
qed

lemma cycles_total:
  assumes "quiet w"
  shows "\<exists>a'. cycles cfg w k a = Inr a'"
proof (induction k arbitrary: a)
  case 0
  then show ?case by simp
next
  case (Suc k)
  from cycle_body_total [OF assms, of cfg a] obtain a1 where
    "cycle_body cfg w a = Inr a1" by blast
  moreover from Suc.IH [of a1] obtain a' where "cycles cfg w k a1 = Inr a'" by blast
  ultimately show ?case by simp
qed

lemma cycle_body_filter:
  assumes "cycle_body cfg w a = Inr a'"
    and "important_news a = filter is_important (latest_news a)"
  shows "important_news a' = filter is_important (latest_news a')"
proof (cases "fetch_rss (feed_at w (cycle a + 1)) = []")
  case True
  then show ?thesis using assms by (auto simp: cycle_body_def)
next
  case False
  let ?v = "\<lparr>dedup = app_dedup a, cycle_news = [], cycle_important = [],
             hf_budget = HF_MAX_PER_CYCLE cfg, hf_calls = [], alerts = []\<rparr>"
  from assms(1) False obtain v' where
    run: "for_items cfg w (cycle a + 1) 0 ?v (fetch_rss (feed_at w (cycle a + 1))) = Inr v'"
    and a': "a' = a\<lparr>app_dedup := dedup v', latest_news := cycle_news v',
                     important_news := cycle_important v', cycle := cycle a + 1\<rparr>"
    by (cases "for_items cfg w (cycle a + 1) 0 ?v (fetch_rss (feed_at w (cycle a + 1)))")
       (auto simp: cycle_body_def Let_def)
  from for_items_step [OF run]
  have "cycle_important v' = filter is_important (cycle_news v')" by simp
  then show ?thesis using a' by simp
qed

lemma cycles_filter:
  "cycles cfg w k a = Inr a' \<Longrightarrow> important_news a = filter is_important (latest_news a)
    \<Longrightarrow> important_news a' = filter is_important (latest_news a')"
proof (induction k arbitrary: a)
  case 0
  then show ?case by simp
next
  case (Suc k)
  from Suc.prems(1) obtain a1 where
    1: "cycle_body cfg w a = Inr a1" and 2: "cycles cfg w k a1 = Inr a'"
    by (cases "cycle_body cfg w a") auto
  from cycle_body_filter [OF 1 Suc.prems(2)]
  have "important_news a1 = filter is_important (latest_news a1)" .
  from Suc.IH [OF 2 this] show ?case .
qed

text \<open>The example world, evaluated.\<close>

lemma example_strip:
  "strip ''Flood in Mumbai'' = ''Flood in Mumbai''"
  "strip ''Cricket score'' = ''Cricket score''"
  "strip ''Stock markets'' = ''Stock markets''"
  by (simp_all add: strip_def drop_ws.simps ws_width_def whitespace_def)

lemma example_fetch:
  "fetch_rss (example_feed (Suc 0)) =
     [[(''title'', ''Flood in Mumbai''), (''link'', ''u1'')],
      [(''title'', ''Cricket score''), (''link'', ''u2'')]]"
  "fetch_rss (example_feed (Suc (Suc 0))) = []"
  by (simp_all add: fetch_rss_def example_feed_def entry_dict_def and_then_def)

lemma example_world_fields:
  "python example_world = example_runtime" "set_order example_world = rev"
  "feed_at example_world = example_feed" "city_at example_world n i = PyStr ''Delhi''"
  "now_at example_world n i = ''2024-01-01 00:00:00''"
  "post_at example_world n i t = PostRaises"
  "notify_at example_world n i t l label sc = None"
  by (simp_all add: example_world_def example_city_def example_clock_def example_post_def
      silent_at_def)

lemma example_quiet: "quiet example_world"
  by (simp add: quiet_def example_world_fields enumerates_rev)

lemma example_label_title:
  "0 < hf_budget v \<Longrightarrow>
   label_title example_config example_runtime PostRaises False False v t =
     Inr ((PyNone, Num 0), v\<lparr>hf_calls := hf_calls v @ [t], hf_budget := hf_budget v - 1\<rparr>)"
  "label_title cfg rt r False True v t = Inr ((PyStr ''keyword'', Num 0.75), v)"
  "hf_budget v \<le> 0 \<Longrightarrow> label_title cfg rt r False False v t = Inr ((PyNone, Num 0), v)"
  by (simp_all add: label_title_def and_then_def example_timeout example_config_fields)

lemma example_cycle_1:
  "update_news example_config example_world 1 =
     Inr \<lparr>app_dedup = \<lparr>capacity = 1000, queue = [''Flood in Mumbai'', ''Cricket score''],
                         dset = [''Flood in Mumbai'', ''Cricket score'']\<rparr>,
          latest_news =
            [\<lparr>title = ''Flood in Mumbai'', link = ''u1'', category = PyStr ''keyword'',
              score = Num 0.75, time = ''2024-01-01 00:00:00'', is_important = True\<rparr>,
             \<lparr>title = ''Cricket score'', link = ''u2'', category = PyStr ''general'',
              score = Num 0, time = ''2024-01-01 00:00:00'', is_important = False\<rparr>],
          important_news =
            [\<lparr>title = ''Flood in Mumbai'', link = ''u1'', category = PyStr ''keyword'',
              score = Num 0.75, time = ''2024-01-01 00:00:00'', is_important = True\<rparr>],
          cycle = 1\<rparr>"
  by (simp add: update_news_def BoundedDedup_init_def PY_SSIZE_T_MAX_def cycle_body_def
      example_fetch example_world_fields example_config_fields loop_body_def dict_get_def
      seen_step enumerates_rev dedup_inv_def record_key_def example_strip
      classify_def and_then_def example_city_rule example_keyword_rule example_label_title
      make_news_item_def Let_def)

lemma classify_remote_call:
  assumes c: "title_matches_city rt t city = Inr False"
    and k: "keyword_prefilter rt t IMPORTANT_KEYWORDS = Inr False"
    and on: "HF_ENABLE cfg" "HF_API_KEY cfg \<noteq> []" "0 < hf_budget v"
    and run: "classify cfg rt r city now notify v t l = Inr v'"
  shows "hf_calls v' = hf_calls v @ [t] \<and> hf_budget v' = hf_budget v - 1"
proof -
  from hf_classify_total obtain res where h: "hf_classify cfg rt r t = Inr res" by blast
  let ?v1 = "v\<lparr>hf_calls := hf_calls v @ [t], hf_budget := hf_budget v - 1\<rparr>"
  have lt: "label_title cfg rt r False False v t = Inr (res, ?v1)"
    using on h by (simp add: label_title_def and_then_def)
  let ?item = "make_news_item cfg now t l (fst res) (snd res) False"
  show ?thesis
  proof (cases "is_important ?item")
    case False
    then have "v' = ?v1\<lparr>cycle_news := cycle_news ?v1 @ [?item]\<rparr>"
      using run c k lt by (simp add: classify_def and_then_def Let_def)
    then show ?thesis by simp
  next
    case True
    then have "v' = ?v1\<lparr>cycle_news := cycle_news ?v1 @ [?item],
                         cycle_important := cycle_important ?v1 @ [?item],
                         alerts := alerts ?v1 @ [t]\<rparr>"
      using run c k lt
      by (cases "notify t l (fst res) (snd res)")
         (simp_all add: classify_def and_then_def Let_def)
    then show ?thesis by simp
  qed
qed

lemma classify_no_budget:
  assumes c: "title_matches_city rt t city = Inr False"
    and k: "keyword_prefilter rt t IMPORTANT_KEYWORDS = Inr False"
    and spent: "hf_budget v \<le> 0"
  shows "classify cfg rt r city now notify v t l =
     (if float_ge (Num 0) (HF_SCORE_THRESHOLD cfg)
      then (case notify t l PyNone (Num 0) of
              Some e \<Rightarrow> Inl e
            | None \<Rightarrow>
                Inr (v\<lparr>cycle_news := cycle_news v @
                        [\<lparr>title = t, link = l, category = PyStr ''general'',
                          score = Num 0, time = now, is_important = True\<rparr>],
                      cycle_important := cycle_important v @
                        [\<lparr>title = t, link = l, category = PyStr ''general'',
                          score = Num 0, time = now, is_important = True\<rparr>],
                      alerts := alerts v @ [t]\<rparr>))
      else Inr (v\<lparr>cycle_news := cycle_news v @
                  [\<lparr>title = t, link = l, category = PyStr ''general'',
                    score = Num 0, time = now, is_important = False\<rparr>]\<rparr>))"
proof -
  have lt: "label_title cfg rt r False False v t = Inr ((PyNone, Num 0), v)"
    using spent by (rule example_label_title(3))
  show ?thesis
    using lt c k
    by (cases "notify t l PyNone (Num 0)")
       (simp_all add: classify_def and_then_def make_news_item_def Let_def)
qed

text \<open>
  C5. Within one cycle, whatever the remote service replies. When the loop over the
  fetched items runs to its end, the budget at the end is the budget at the start minus
  the number of invocations of the remote client, none of them made at a budget of zero
  or below, and a budget that started at zero or above has not fallen below zero; in a
  world where nothing raises the loop does run to its end. Each invocation costs exactly
  one: a title that matches neither rule, classified with the client switched on and a
  positive budget, is sent and the budget is one less, for every reply, good or failed.
  With the budget at zero or below, a new title that matches neither the city rule nor
  the keyword rule is labelled "general" with score 0.0 without a call and with the
  budget unchanged; the item enters the cycle unless it is important (threshold at or
  below 0.0) and its announcement raises.
\<close>

theorem remote_budget:
  "(\<forall>v'. for_items cfg w n i v items = Inr v' \<longrightarrow>
       (\<exists>sent. hf_calls v' = hf_calls v @ sent
          \<and> hf_budget v' = hf_budget v - int (length sent)
          \<and> (hf_budget v \<le> 0 \<longrightarrow> sent = [])
          \<and> (0 \<le> hf_budget v \<longrightarrow> 0 \<le> hf_budget v')))
   \<and> (quiet w \<longrightarrow> (\<exists>v'. for_items cfg w n i v items = Inr v'))
   \<and> (\<forall>v'. title_matches_city rt t city = Inr False
          \<and> keyword_prefilter rt t IMPORTANT_KEYWORDS = Inr False
          \<and> HF_ENABLE cfg \<and> HF_API_KEY cfg \<noteq> [] \<and> 0 < hf_budget v
          \<and> classify cfg rt r city now notify v t l = Inr v'
        \<longrightarrow> hf_calls v' = hf_calls v @ [t] \<and> hf_budget v' = hf_budget v - 1)
   \<and> (enumerates (set_order w) \<and> hf_budget v \<le> 0 \<and> dict_get news ''title'' [] \<noteq> []
        \<and> strip (dict_get news ''title'' []) \<notin> set (dset (dedup v))
        \<and> title_matches_city (python w) (dict_get news ''title'' []) (city_at w n i)
            = Inr False
        \<and> keyword_prefilter (python w) (dict_get news ''title'' []) IMPORTANT_KEYWORDS
            = Inr False
      \<longrightarrow> (\<exists>d'. loop_body cfg w n i v news =
             (if float_ge (Num 0) (HF_SCORE_THRESHOLD cfg)
              then (case notify_at w n i (dict_get news ''title'' [])
                          (dict_get news ''link'' []) PyNone (Num 0) of
                      Some e \<Rightarrow> Inl e
                    | None \<Rightarrow>
                        Inr (v\<lparr>dedup := d',
                              cycle_news := cycle_news v @
                                [\<lparr>title = dict_get news ''title'' [],
                                  link = dict_get news ''link'' [],
                                  category = PyStr ''general'', score = Num 0,
                                  time = now_at w n i, is_important = True\<rparr>],
                              cycle_important := cycle_important v @
                                [\<lparr>title = dict_get news ''title'' [],
                                  link = dict_get news ''link'' [],
                                  category = PyStr ''general'', score = Num 0,
                                  time = now_at w n i, is_important = True\<rparr>],
                              alerts := alerts v @ [dict_get news ''title'' []]\<rparr>))
              else Inr (v\<lparr>dedup := d',
                          cycle_news := cycle_news v @
                            [\<lparr>title = dict_get news ''title'' [],
                              link = dict_get news ''link'' [],
                              category = PyStr ''general'', score = Num 0,
                              time = now_at w n i, is_important = False\<rparr>]\<rparr>))))"
proof (intro conjI allI impI)
  fix v' assume "for_items cfg w n i v items = Inr v'"
  from for_items_step [OF this]
  show "\<exists>sent. hf_calls v' = hf_calls v @ sent
          \<and> hf_budget v' = hf_budget v - int (length sent)
          \<and> (hf_budget v \<le> 0 \<longrightarrow> sent = [])
          \<and> (0 \<le> hf_budget v \<longrightarrow> 0 \<le> hf_budget v')"
    unfolding budget_step_def by blast
next
  assume "quiet w"
  then show "\<exists>v'. for_items cfg w n i v items = Inr v'" by (rule for_items_total)
next
  fix v'
  assume a: "title_matches_city rt t city = Inr False
          \<and> keyword_prefilter rt t IMPORTANT_KEYWORDS = Inr False
          \<and> HF_ENABLE cfg \<and> HF_API_KEY cfg \<noteq> [] \<and> 0 < hf_budget v
          \<and> classify cfg rt r city now notify v t l = Inr v'"
  have "hf_calls v' = hf_calls v @ [t] \<and> hf_budget v' = hf_budget v - 1"
    using a by (intro classify_remote_call [of rt t city cfg v r now notify l v']) simp_all
  then show "hf_calls v' = hf_calls v @ [t]" and "hf_budget v' = hf_budget v - 1"
    by simp_all
next
  let ?t = "dict_get news ''title'' []"
  let ?l = "dict_get news ''link'' []"
  assume a: "enumerates (set_order w) \<and> hf_budget v \<le> 0 \<and> ?t \<noteq> []
        \<and> strip ?t \<notin> set (dset (dedup v))
        \<and> title_matches_city (python w) ?t (city_at w n i) = Inr False
        \<and> keyword_prefilter (python w) ?t IMPORTANT_KEYWORDS = Inr False"
  then have it: "enumerates (set_order w)" by simp
  from seen_total [OF it, of "dedup v" ?t] obtain d' where
    s: "seen (set_order w) (dedup v) ?t = Inr (False, d')"
    using a by auto
  have c: "title_matches_city (python w) ?t (city_at w n i) = Inr False"
    and k: "keyword_prefilter (python w) ?t IMPORTANT_KEYWORDS = Inr False"
    and spent: "hf_budget (v\<lparr>dedup := d'\<rparr>) \<le> 0"
    using a by simp_all
  have "loop_body cfg w n i v news =
          classify cfg (python w) (post_at w n i ?t) (city_at w n i) (now_at w n i)
            (notify_at w n i) (v\<lparr>dedup := d'\<rparr>) ?t ?l"
    using a s by (simp add: loop_body_def Let_def)
  also note classify_no_budget [OF c k spent]
  finally show "\<exists>d'. loop_body cfg w n i v news =
             (if float_ge (Num 0) (HF_SCORE_THRESHOLD cfg)
              then (case notify_at w n i ?t ?l PyNone (Num 0) of
                      Some e \<Rightarrow> Inl e
                    | None \<Rightarrow>
                        Inr (v\<lparr>dedup := d',
                              cycle_news := cycle_news v @
                                [\<lparr>title = ?t, link = ?l,
                                  category = PyStr ''general'', score = Num 0,
                                  time = now_at w n i, is_important = True\<rparr>],
                              cycle_important := cycle_important v @
                                [\<lparr>title = ?t, link = ?l,
                                  category = PyStr ''general'', score = Num 0,
                                  time = now_at w n i, is_important = True\<rparr>],
                              alerts := alerts v @ [?t]\<rparr>))
              else Inr (v\<lparr>dedup := d',
                          cycle_news := cycle_news v @
                            [\<lparr>title = ?t, link = ?l,
                              category = PyStr ''general'', score = Num 0,
                              time = now_at w n i, is_important = False\<rparr>]\<rparr>))"
    by (intro exI [of _ d'])
       (cases "notify_at w n i (dict_get news ''title'' []) (dict_get news ''link'' [])
                 PyNone (Num 0)"; simp)
qed

theorem remote_budget_witness:
  "quiet example_world
   \<and> (\<exists>v'. for_items example_config example_world 1 0 (example_vars\<lparr>hf_budget := 1\<rparr>)
              [[(''title'', ''Cricket score''), (''link'', ''u2'')],
               [(''title'', ''Stock markets''), (''link'', ''u3'')]] = Inr v'
         \<and> hf_calls v' = [''Cricket score''] \<and> hf_budget v' = 0
         \<and> map category (cycle_news v') = [PyStr ''general'', PyStr ''general'']
         \<and> map score (cycle_news v') = [Num 0, Num 0])
   \<and> hf_budget (example_vars\<lparr>hf_budget := 0\<rparr>) \<le> 0
   \<and> title_matches_city (python example_world) ''Stock markets'' (city_at example_world 1 1)
       = Inr False
   \<and> keyword_prefilter (python example_world) ''Stock markets'' IMPORTANT_KEYWORDS = Inr False
   \<and> (\<exists>d'. loop_body example_config example_world 1 1 (example_vars\<lparr>hf_budget := 0\<rparr>)
              [(''title'', ''Stock markets''), (''link'', ''u3'')] =
             Inr (example_vars
                   \<lparr>hf_budget := 0, dedup := d',
                    cycle_news :=
                      [\<lparr>title = ''Stock markets'', link = ''u3'', category = PyStr ''general'',
                        score = Num 0, time = ''2024-01-01 00:00:00'',
                        is_important = False\<rparr>]\<rparr>))"
proof -
  let ?items = "[[(''title'', ''Cricket score''), (''link'', ''u2'')],
                 [(''title'', ''Stock markets''), (''link'', ''u3'')]]"
  let ?news = "[(''title'', ''Stock markets''), (''link'', ''u3'')]"
  let ?v0 = "example_vars\<lparr>hf_budget := 0\<rparr>"
  note budget = remote_budget [where cfg = example_config and w = example_world and n = 1
      and i = 1 and v = ?v0 and items = "[]" and news = ?news]
  have run: "\<exists>v'. for_items example_config example_world 1 0 (example_vars\<lparr>hf_budget := 1\<rparr>)
              ?items = Inr v'
         \<and> hf_calls v' = [''Cricket score''] \<and> hf_budget v' = 0
         \<and> map category (cycle_news v') = [PyStr ''general'', PyStr ''general'']
         \<and> map score (cycle_news v') = [Num 0, Num 0]"
    by (simp add: example_vars_def example_world_fields example_config_fields loop_body_def
        dict_get_def seen_step enumerates_rev dedup_inv_def record_key_def example_strip
        classify_def and_then_def example_city_rule example_keyword_rule example_label_title
        make_news_item_def Let_def)
  have pre: "enumerates (set_order example_world) \<and> hf_budget ?v0 \<le> 0
      \<and> dict_get ?news ''title'' [] \<noteq> []
      \<and> strip (dict_get ?news ''title'' []) \<notin> set (dset (dedup ?v0))
      \<and> title_matches_city (python example_world) (dict_get ?news ''title'' [])
           (city_at example_world 1 1) = Inr False
      \<and> keyword_prefilter (python example_world) (dict_get ?news ''title'' [])
           IMPORTANT_KEYWORDS = Inr False"
    by (simp add: dict_get_def example_vars_def example_world_fields enumerates_rev
        example_city_rule example_keyword_rule)
  have one: "\<exists>d'. loop_body example_config example_world 1 1 ?v0 ?news =
             Inr (example_vars
                   \<lparr>hf_budget := 0, dedup := d',
                    cycle_news :=
                      [\<lparr>title = ''Stock markets'', link = ''u3'', category = PyStr ''general'',
                        score = Num 0, time = ''2024-01-01 00:00:00'',
                        is_important = False\<rparr>]\<rparr>)"
    using budget pre
    by (simp add: dict_get_def example_vars_def example_world_fields example_config_fields)
  show ?thesis
    using example_quiet run one pre
    by (simp add: dict_get_def example_world_fields example_city_rule example_keyword_rule)
qed

text \<open>
  C6. When the fetch of a cycle returns no items, as it does when parsing raises or an
  entry lacks its title or link, the cycle ends without raising and leaves the two
  published lists and the deduplicator as they were; only the cycle counter advances.
\<close>

theorem fetch_failure_keeps_results:
  assumes "fetch_rss (feed_at w (cycle a + 1)) = []"
  shows "cycle_body cfg w a = Inr (a\<lparr>cycle := cycle a + 1\<rparr>)
       \<and> latest_news (a\<lparr>cycle := cycle a + 1\<rparr>) = latest_news a
       \<and> important_news (a\<lparr>cycle := cycle a + 1\<rparr>) = important_news a
       \<and> fetch_rss ParseRaises = []
       \<and> fetch_rss (Parsed [\<lparr>entry_title = None, entry_link = Some l\<rparr>]) = []"
  using assms
  by (simp add: cycle_body_def fetch_rss_def entry_dict_def and_then_def)

theorem fetch_failure_keeps_results_witness:
  "fetch_rss (feed_at example_world
      (cycle \<lparr>app_dedup = \<lparr>capacity = 1000, queue = [''x''], dset = [''x'']\<rparr>,
              latest_news = [\<lparr>title = ''x'', link = ''u'', category = PyStr ''general'',
                              score = Num 0, time = ''t'', is_important = False\<rparr>],
              important_news = [], cycle = 1\<rparr> + 1)) = []
   \<and> cycle_body example_config example_world
        \<lparr>app_dedup = \<lparr>capacity = 1000, queue = [''x''], dset = [''x'']\<rparr>,
         latest_news = [\<lparr>title = ''x'', link = ''u'', category = PyStr ''general'',
                         score = Num 0, time = ''t'', is_important = False\<rparr>],
         important_news = [], cycle = 1\<rparr> =
       Inr \<lparr>app_dedup = \<lparr>capacity = 1000, queue = [''x''], dset = [''x'']\<rparr>,
            latest_news = [\<lparr>title = ''x'', link = ''u'', category = PyStr ''general'',
                            score = Num 0, time = ''t'', is_important = False\<rparr>],
            important_news = [], cycle = 2\<rparr>"
proof -
  let ?a = "\<lparr>app_dedup = \<lparr>capacity = 1000, queue = [''x''], dset = [''x'']\<rparr>,
         latest_news = [\<lparr>title = ''x'', link = ''u'', category = PyStr ''general'',
                         score = Num 0, time = ''t'', is_important = False\<rparr>],
         important_news = [], cycle = 1\<rparr>"
  have failed: "fetch_rss (feed_at example_world (cycle ?a + 1)) = []"
    by (simp add: example_world_fields example_fetch)
  show ?thesis
    using fetch_failure_keeps_results [OF failed, of example_config] failed by simp
qed

text \<open>
  C10. Whenever the worker reaches the end of a cycle, after any number of cycles, the
  published list of important items is the list of all published items restricted to
  those marked important, in the same order. The worker does reach the end of every
  cycle in a world where nothing raises, provided the deduplicator could be built
  (capacity neither negative nor beyond \<^verbatim>\<open>Py_ssize_t\<close>); a raise from the constructor, from
  normalizing a city that is no string or from an announcement ends the worker and
  leaves the lists of the last completed cycle in place.
\<close>

theorem important_is_filter_of_latest:
  "(\<forall>a. update_news cfg w k = Inr a \<longrightarrow>
       important_news a = filter is_important (latest_news a))
   \<and> (quiet w \<and> 0 \<le> SEEN_CAPACITY cfg \<and> SEEN_CAPACITY cfg \<le> PY_SSIZE_T_MAX
        \<longrightarrow> (\<exists>a. update_news cfg w k = Inr a))"
proof (intro conjI allI impI)
  fix a assume run: "update_news cfg w k = Inr a"
  let ?a0 = "\<lparr>app_dedup = \<lparr>capacity = SEEN_CAPACITY cfg, queue = [], dset = []\<rparr>,
              latest_news = [], important_news = [], cycle = 0\<rparr>"
  from run have "cycles cfg w k ?a0 = Inr a"
    by (simp add: update_news_def BoundedDedup_init_def split: if_splits)
  moreover have "important_news ?a0 = filter is_important (latest_news ?a0)" by simp
  ultimately show "important_news a = filter is_important (latest_news a)"
    by (rule cycles_filter)
next
  assume a: "quiet w \<and> 0 \<le> SEEN_CAPACITY cfg \<and> SEEN_CAPACITY cfg \<le> PY_SSIZE_T_MAX"
  then have "quiet w" by simp
  from cycles_total [OF this]
  show "\<exists>a. update_news cfg w k = Inr a"
    using a by (simp add: update_news_def BoundedDedup_init_def)
qed

theorem important_is_filter_of_latest_witness:
  "quiet example_world \<and> 0 \<le> SEEN_CAPACITY example_config
   \<and> SEEN_CAPACITY example_config \<le> PY_SSIZE_T_MAX
   \<and> (\<exists>a. update_news example_config example_world 1 = Inr a
         \<and> map title (latest_news a) = [''Flood in Mumbai'', ''Cricket score'']
         \<and> map is_important (latest_news a) = [True, False]
         \<and> map title (important_news a) = [''Flood in Mumbai'']
         \<and> important_news a = filter is_important (latest_news a))
   \<and> update_news (example_config\<lparr>SEEN_CAPACITY := - 1\<rparr>) example_world 1 = Inl ValueError"
proof -
  have cap: "0 \<le> SEEN_CAPACITY example_config"
    "SEEN_CAPACITY example_config \<le> PY_SSIZE_T_MAX"
    by (simp_all add: example_config_fields PY_SSIZE_T_MAX_def)
  have neg: "update_news (example_config\<lparr>SEEN_CAPACITY := - 1\<rparr>) example_world 1
      = Inl ValueError"
    by (simp add: update_news_def BoundedDedup_init_def)
  show ?thesis
    using important_is_filter_of_latest [of example_config example_world 1]
      example_quiet cap example_cycle_1 neg
    by simp
qed

end
